theory Spec2Isabelle
  imports Complex_Main "HOL-Library.Signed_Division"
begin

chapter \<open>The model\<close>

section \<open>Configuration constants (src/config/constants.js)\<close>

definition UNISWAP_V3_ROUTER :: string where
  "UNISWAP_V3_ROUTER = ''0x2626664c2603336E57B271c5C0b26F421741e481''"

definition WETH_ADDRESS :: string where
  "WETH_ADDRESS = ''0x4200000000000000000000000000000000000006''"

text \<open>The fee tiers are probed in exactly this order.\<close>

definition POOL_FEE_TIERS :: "nat list" where
  "POOL_FEE_TIERS = [3000, 10000, 500]"

definition MAX_RETRY_ATTEMPTS :: nat where
  "MAX_RETRY_ATTEMPTS = 3"

definition RETRY_BASE_DELAY_MS :: nat where
  "RETRY_BASE_DELAY_MS = 2000"

definition RETRY_BACKOFF_MULTIPLIER :: nat where
  "RETRY_BACKOFF_MULTIPLIER = 2"

text \<open>The members of \<^verbatim>\<open>ERROR_CODES\<close> that the modelled functions use.\<close>

definition TX_FAILED :: nat where
  "TX_FAILED = 3003"

definition TX_REVERTED :: nat where
  "TX_REVERTED = 3004"


definition NO_LIQUIDITY :: nat where
  "NO_LIQUIDITY = 4003"


section \<open>Thrown values\<close>

text \<open>
  A value of a \<^verbatim>\<open>details\<close> object: a string, a number, \<^verbatim>\<open>undefined\<close>
  (what \<^verbatim>\<open>lastError?.message\<close> is when the thrown value has no message) or
  \<^verbatim>\<open>null\<close> (a receipt's status may be).
\<close>

datatype detail = DString string | DNumber int | DUndefined | DNull

text \<open>
  A thrown JavaScript value. \<open>Error\<close> stands for every error that is not the service's
  own class (a provider or library error, \<^verbatim>\<open>new Error(...)\<close>): all the code reads of it
  is \<^verbatim>\<open>message\<close>, which may be missing. \<open>BlockchainError\<close> is the class of
  blockchain.js with its message, code and details. \<open>RangeError\<close> is what
  \<^verbatim>\<open>BigInt(x)\<close> raises for a number that is not an integer, with the engine's message.
\<close>

datatype error =
    Error "string option"
  | BlockchainError string nat "(string \<times> detail) list"
  | RangeError string

fun message :: "error \<Rightarrow> string option" where
  "message (Error m) = m"
| "message (BlockchainError m c d) = Some m"
| "message (RangeError m) = Some m"

fun code :: "error \<Rightarrow> nat option" where
  "code (BlockchainError m c d) = Some c"
| "code e = None"

fun details :: "error \<Rightarrow> (string \<times> detail) list" where
  "details (BlockchainError m c d) = d"
| "details e = []"

section \<open>Quote selection (src/services/trading.js, findBestPoolFee)\<close>

text \<open>
  Token amounts are JavaScript \<^verbatim>\<open>bigint\<close>s: unbounded integers, here \<^typ>\<open>int\<close>.
  \<open>quote\<close> is the object \<^verbatim>\<open>{ fee, amountOut }\<close>; \<open>quoteParams\<close> is the argument of
  the quoter call.
\<close>

record quote =
  fee :: nat
  amountOut :: int

record quoteParams =
  qp_tokenIn :: string
  qp_tokenOut :: string
  qp_amountIn :: int
  qp_fee :: nat
  qp_sqrtPriceLimitX96 :: int

text \<open>
  The quoter is the read-only call \<^verbatim>\<open>quoter.quoteExactInputSingle.staticCall\<close>. One probe
  calls it once for each tier, so what the probe observes is a function from the
  parameters to the first return value, \<open>None\<close> when the call raised (the
  \<^verbatim>\<open>catch\<close> block drops the error and goes on to the next tier).
\<close>

type_synonym quoter = "quoteParams \<Rightarrow> int option"

text \<open>
  The quoter call of one loop iteration: \<^verbatim>\<open>quoteParams\<close> is built from the arguments
  and the tier, and \<^verbatim>\<open>result[0]\<close> is read.
\<close>

definition tierQuote :: "quoter \<Rightarrow> string \<Rightarrow> string \<Rightarrow> int \<Rightarrow> nat \<Rightarrow> int option" where
  "tierQuote quoter tokenIn tokenOut amountIn tier =
     quoter \<lparr>qp_tokenIn = tokenIn, qp_tokenOut = tokenOut, qp_amountIn = amountIn,
             qp_fee = tier, qp_sqrtPriceLimitX96 = 0\<rparr>"

text \<open>The body of the \<^verbatim>\<open>for\<close> loop: one tier, with the running \<^verbatim>\<open>bestQuote\<close>.\<close>

definition probeTier :: "quoter \<Rightarrow> string \<Rightarrow> string \<Rightarrow> int \<Rightarrow> quote \<Rightarrow> nat \<Rightarrow> quote" where
  "probeTier quoter tokenIn tokenOut amountIn bestQuote tier =
     (case tierQuote quoter tokenIn tokenOut amountIn tier of
        None \<Rightarrow> bestQuote
      | Some out \<Rightarrow>
          if out > amountOut bestQuote then \<lparr>fee = tier, amountOut = out\<rparr> else bestQuote)"

text \<open>The loop over a list of tiers, from a given running best.\<close>

definition probeTiers :: "quoter \<Rightarrow> string \<Rightarrow> string \<Rightarrow> int \<Rightarrow> quote \<Rightarrow> nat list \<Rightarrow> quote" where
  "probeTiers quoter tokenIn tokenOut amountIn bestQuote tiers =
     foldl (probeTier quoter tokenIn tokenOut amountIn) bestQuote tiers"

definition findBestPoolFee :: "string \<Rightarrow> string \<Rightarrow> int \<Rightarrow> quoter \<Rightarrow> error + quote" where
  "findBestPoolFee tokenIn tokenOut amountIn quoter =
     (let bestQuote = probeTiers quoter tokenIn tokenOut amountIn
                        \<lparr>fee = 0, amountOut = 0\<rparr> POOL_FEE_TIERS
      in if amountOut bestQuote = 0
         then Inl (BlockchainError ''No liquidity found for token pair'' NO_LIQUIDITY
                     [(''tokenIn'', DString tokenIn), (''tokenOut'', DString tokenOut)])
         else Inr bestQuote)"

section \<open>JavaScript numbers\<close>

text \<open>
  A \<^verbatim>\<open>number\<close> is an IEEE 754 binary64 value: a finite value (a rational), an
  infinity or NaN. The model has one zero: the sign of a zero is dropped.
\<close>

datatype number = Finite rat | PosInfinity | NegInfinity | NaN

text \<open>The number of binary digits of a natural number.\<close>

fun bitLength :: "nat \<Rightarrow> nat" where
  "bitLength n = (if n = 0 then 0 else Suc (bitLength (n div 2)))"

declare bitLength.simps [simp del]

text \<open>For \<open>x > 0\<close>, the integer \<open>e\<close> with \<open>2^e \<le> x < 2^(e+1)\<close>.\<close>

definition ilog2 :: "rat \<Rightarrow> int" where
  "ilog2 x = (if 1 \<le> x then int (bitLength (nat \<lfloor>x\<rfloor>)) - 1
              else - int (bitLength (nat (\<lceil>1 / x\<rceil> - 1))))"

text \<open>Rounding to the nearest integer, a tie to the even one.\<close>

definition roundHalfEven :: "rat \<Rightarrow> int" where
  "roundHalfEven y =
     (let f = \<lfloor>y\<rfloor>; d = y - of_int f
      in if d < 1 / 2 then f else if 1 / 2 < d then f + 1 else if even f then f else f + 1)"

text \<open>
  The unit in the last place of the binary64 format at \<open>x\<close>: 52 fraction bits below the
  leading bit, and no exponent below -1022 (the subnormal range).
\<close>

definition ulpOf :: "rat \<Rightarrow> rat" where
  "ulpOf x = 2 powi (max (ilog2 \<bar>x\<bar>) (- 1022) - 52)"

text \<open>
  The binary64 value nearest to an exact result (round to nearest, ties to even), before
  the overflow check.
\<close>

definition round64 :: "rat \<Rightarrow> rat" where
  "round64 x = (if x = 0 then 0 else of_int (roundHalfEven (x / ulpOf x)) * ulpOf x)"

text \<open>The number an arithmetic operation returns when its exact result is \<open>x\<close>.\<close>

definition toNumber :: "rat \<Rightarrow> number" where
  "toNumber x =
     (let r = round64 x
      in if 2 ^ 1024 \<le> r then PosInfinity
         else if r \<le> - (2 ^ 1024) then NegInfinity
         else Finite r)"

text \<open>The operators \<^verbatim>\<open>*\<close> and \<^verbatim>\<open>/\<close> on numbers.\<close>

fun jsMul :: "number \<Rightarrow> number \<Rightarrow> number" where
  "jsMul (Finite a) (Finite b) = toNumber (a * b)"
| "jsMul NaN y = NaN"
| "jsMul x NaN = NaN"
| "jsMul (Finite a) y =
     (if a = 0 then NaN else if (0 < a) = (y = PosInfinity) then PosInfinity else NegInfinity)"
| "jsMul x (Finite b) =
     (if b = 0 then NaN else if (0 < b) = (x = PosInfinity) then PosInfinity else NegInfinity)"
| "jsMul x y = (if x = y then PosInfinity else NegInfinity)"

fun jsDiv :: "number \<Rightarrow> number \<Rightarrow> number" where
  "jsDiv (Finite a) (Finite b) =
     (if b = 0 then (if a = 0 then NaN else if 0 < a then PosInfinity else NegInfinity)
      else toNumber (a / b))"
| "jsDiv NaN y = NaN"
| "jsDiv x NaN = NaN"
| "jsDiv (Finite a) y = Finite 0"
| "jsDiv x (Finite b) =
     (if (0 \<le> b) = (x = PosInfinity) then PosInfinity else NegInfinity)"
| "jsDiv x y = NaN"

fun Math_floor :: "number \<Rightarrow> number" where
  "Math_floor (Finite x) = Finite (of_int \<lfloor>x\<rfloor>)"
| "Math_floor x = x"

text \<open>
  \<^verbatim>\<open>BigInt(x)\<close>: the integer, or a RangeError for a number that is not one. The message
  is the engine's; the model leaves the digits of a finite number out of it.
\<close>

fun BigInt :: "number \<Rightarrow> error + int" where
  "BigInt (Finite x) =
     (if of_int \<lfloor>x\<rfloor> = x then Inr \<lfloor>x\<rfloor>
      else Inl (RangeError ''The number cannot be converted to a BigInt because it is not an integer''))"
| "BigInt PosInfinity =
     Inl (RangeError ''The number Infinity cannot be converted to a BigInt because it is not an integer'')"
| "BigInt NegInfinity =
     Inl (RangeError ''The number -Infinity cannot be converted to a BigInt because it is not an integer'')"
| "BigInt NaN =
     Inl (RangeError ''The number NaN cannot be converted to a BigInt because it is not an integer'')"


section \<open>Slippage (src/services/trading.js, calculateMinOutput)\<close>

text \<open>
  \<^verbatim>\<open>expectedOutput * slippageBps / 10000n\<close> is bigint division, which truncates toward
  zero: \<open>sdiv\<close>.
\<close>

definition calculateMinOutput :: "int \<Rightarrow> number \<Rightarrow> error + int" where
  "calculateMinOutput expectedOutput slippagePercent =
     (case BigInt (Math_floor (jsMul slippagePercent (Finite 100))) of
        Inl e \<Rightarrow> Inl e
      | Inr slippageBps \<Rightarrow>
          Inr (expectedOutput - (expectedOutput * slippageBps) sdiv 10000))"

text \<open>
  The formula the specification gives for the minimum output, in its own words:
  \<open>E - floor(E * round(S*100) / 10000)\<close>, for the comparison with the code.
\<close>

definition minOut_spec :: "int \<Rightarrow> rat \<Rightarrow> int" where
  "minOut_spec E S = E - \<lfloor>of_int E * of_int (round (S * 100)) / (10000 :: rat)\<rfloor>"

section \<open>USD to wei (src/services/trading.js, executeBuy, step 2)\<close>

text \<open>
  \<^verbatim>\<open>x.toFixed(18)\<close> is a decimal string with 18 fraction digits, given here by its
  value times \<open>10^18\<close>: the integer \<open>n\<close> for which \<open>n / 10^18\<close> is nearest to \<open>x\<close>, the
  larger one in a tie, and for a negative \<open>x\<close> the negated text of \<open>-x\<close>. From \<open>10^21\<close> on,
  and for an infinity or NaN, the text is not a decimal (\<^verbatim>\<open>1e+21\<close>, \<^verbatim>\<open>Infinity\<close>,
  \<^verbatim>\<open>NaN\<close>).
\<close>

datatype decimalText = Decimal18 int | NotDecimal

fun toFixed18 :: "number \<Rightarrow> decimalText" where
  "toFixed18 (Finite x) =
     (if 10 ^ 21 \<le> \<bar>x\<bar> then NotDecimal
      else if 0 \<le> x then Decimal18 \<lfloor>x * 10 ^ 18 + 1 / 2\<rfloor>
      else Decimal18 (- \<lfloor>- x * 10 ^ 18 + 1 / 2\<rfloor>))"
| "toFixed18 x = NotDecimal"

text \<open>\<^verbatim>\<open>ethers.parseEther\<close> reads a decimal text as wei and rejects any other text.\<close>

fun parseEther :: "decimalText \<Rightarrow> error + int" where
  "parseEther (Decimal18 n) = Inr n"
| "parseEther NotDecimal = Inl (Error (Some ''invalid FixedNumber string value''))"

definition wethAmount :: "number \<Rightarrow> number \<Rightarrow> number" where
  "wethAmount amountUsd ethPriceUsd = jsDiv amountUsd ethPriceUsd"

definition wethAmountWei :: "number \<Rightarrow> number \<Rightarrow> error + int" where
  "wethAmountWei amountUsd ethPriceUsd = parseEther (toFixed18 (wethAmount amountUsd ethPriceUsd))"

section \<open>Effects: completions, events and the chain\<close>

text \<open>
  An asynchronous call returns a value, throws, or never settles (an \<^verbatim>\<open>await\<close> on a
  promise that stays pending: the function that awaits it never returns).
\<close>

datatype 'a completion = Returns 'a | Throws error | NeverSettles

text \<open>
  A transaction response (\<^verbatim>\<open>tx.hash\<close>) and a receipt. \<^verbatim>\<open>receipt.status\<close> is a number
  or \<^verbatim>\<open>null\<close>.
\<close>

record tx =
  hash :: string

record receipt =
  status :: "nat option"
  blockNumber :: nat
  gasUsed :: int

text \<open>
  A promise handed out by a collaborator: it settles after some milliseconds, with a value
  or an error, or it stays pending for ever.
\<close>

datatype 'a promise = Settles nat "error + 'a" | Pending

record swapParams =
  sp_tokenIn :: string
  sp_tokenOut :: string
  sp_fee :: nat
  sp_recipient :: string
  sp_amountIn :: int
  sp_amountOutMinimum :: int
  sp_sqrtPriceLimitX96 :: int

text \<open>
  What a run leaves behind, in order: the log lines of the retry wrapper (the attempt
  line of \<^verbatim>\<open>logger.debug\<close>, the line of \<^verbatim>\<open>logger.error\<close> for an error that is not
  retried, the line of \<^verbatim>\<open>logger.warn\<close> before a retry with the attempt, the delay and
  the error's message), every \<^verbatim>\<open>sleep(ms)\<close>, and every state-changing call sent to the
  chain with its arguments: \<^verbatim>\<open>approve(spender, amount, {gasLimit})\<close> on a token and
  \<^verbatim>\<open>exactInputSingle(swapParams, {gasLimit})\<close> on the router. Other log lines are not
  modelled.
\<close>

datatype event =
    LogAttempt string nat nat
  | LogNonRetryable string error
  | LogRetrying string nat nat "string option"
  | Sleep nat
  | SendApprove string string int int
  | SendExactInputSingle swapParams int

text \<open>
  The state a run threads through: the world outside (the chain and the provider, of any
  type \<open>'w\<close>) and the events so far.
\<close>

record 'w machine =
  world :: 'w
  events :: "event list"

type_synonym ('w, 'a) io = "'w machine \<Rightarrow> 'a completion \<times> 'w machine"

definition logged :: "event \<Rightarrow> 'w machine \<Rightarrow> 'w machine" where
  "logged ev s = s\<lparr>events := events s @ [ev]\<rparr>"

definition returns :: "'a \<Rightarrow> ('w, 'a) io" where
  "returns v s = (Returns v, s)"

definition throw :: "error \<Rightarrow> ('w, 'a) io" where
  "throw e s = (Throws e, s)"

text \<open>Sequencing (\<^verbatim>\<open>await\<close> one call, then go on): an error or a hang ends the run.\<close>

definition andThen :: "('w, 'a) io \<Rightarrow> ('a \<Rightarrow> ('w, 'b) io) \<Rightarrow> ('w, 'b) io" where
  "andThen m f s =
     (case m s of
        (Returns v, s') \<Rightarrow> f v s'
      | (Throws e, s') \<Rightarrow> (Throws e, s')
      | (NeverSettles, s') \<Rightarrow> (NeverSettles, s'))"


text \<open>A pure computation that may throw.\<close>

definition fromResult :: "error + 'a \<Rightarrow> ('w, 'a) io" where
  "fromResult r = (case r of Inl e \<Rightarrow> throw e | Inr v \<Rightarrow> returns v)"

text \<open>A call to a collaborator: it returns or throws, and the world moves on.\<close>

definition call :: "('w \<Rightarrow> (error + 'a) \<times> 'w) \<Rightarrow> ('w, 'a) io" where
  "call f s =
     (case f (world s) of
        (Inl e, w) \<Rightarrow> (Throws e, s\<lparr>world := w\<rparr>)
      | (Inr v, w) \<Rightarrow> (Returns v, s\<lparr>world := w\<rparr>))"


definition emit :: "event \<Rightarrow> ('w, unit) io" where
  "emit ev s = (Returns (), logged ev s)"

text \<open>\<^verbatim>\<open>await p\<close> with no timer: a promise that stays pending is never returned from.\<close>

definition await :: "('w \<Rightarrow> 'a promise \<times> 'w) \<Rightarrow> ('w, 'a) io" where
  "await p s =
     (case p (world s) of
        (Settles t r, w) \<Rightarrow> fromResult r (s\<lparr>world := w\<rparr>)
      | (Pending, w) \<Rightarrow> (NeverSettles, s\<lparr>world := w\<rparr>))"

text \<open>
  \<^verbatim>\<open>await Promise.race([p, timer])\<close>, the timer rejecting with \<open>timeoutError\<close> after
  \<open>timeoutMs\<close>. The promise is the first of the race and is started before the timer, so
  it wins when it settles no later than the timer; the timer wins otherwise.
\<close>

definition awaitRace :: "('w \<Rightarrow> 'a promise \<times> 'w) \<Rightarrow> nat \<Rightarrow> error \<Rightarrow> ('w, 'a) io" where
  "awaitRace p timeoutMs timeoutError s =
     (case p (world s) of
        (Settles t r, w) \<Rightarrow>
          if t \<le> timeoutMs then fromResult r (s\<lparr>world := w\<rparr>)
          else (Throws timeoutError, s\<lparr>world := w\<rparr>)
      | (Pending, w) \<Rightarrow> (Throws timeoutError, s\<lparr>world := w\<rparr>))"

text \<open>\<^verbatim>\<open>sleep(ms)\<close> of blockchain.js.\<close>

definition sleep :: "nat \<Rightarrow> ('w, unit) io" where
  "sleep ms = emit (Sleep ms)"

text \<open>
  The collaborators, each a function of the world: the wallet, the ERC-20 contract at a
  token address, the provider, the quoter, the router, the price feed, and the wait for a
  transaction's confirmation. The quoter is read at one world for a whole probe.
\<close>

record 'w chain =
  wallet_getAddress :: "'w \<Rightarrow> (error + string) \<times> 'w"
  erc20_name :: "string \<Rightarrow> 'w \<Rightarrow> (error + string) \<times> 'w"
  erc20_symbol :: "string \<Rightarrow> 'w \<Rightarrow> (error + string) \<times> 'w"
  erc20_decimals :: "string \<Rightarrow> 'w \<Rightarrow> (error + int) \<times> 'w"
  erc20_balanceOf :: "string \<Rightarrow> string \<Rightarrow> 'w \<Rightarrow> (error + int) \<times> 'w"
  erc20_allowance :: "string \<Rightarrow> string \<Rightarrow> string \<Rightarrow> 'w \<Rightarrow> (error + int) \<times> 'w"
  erc20_approve_estimateGas :: "string \<Rightarrow> string \<Rightarrow> int \<Rightarrow> 'w \<Rightarrow> (error + int) \<times> 'w"
  erc20_approve :: "string \<Rightarrow> string \<Rightarrow> int \<Rightarrow> int \<Rightarrow> 'w \<Rightarrow> (error + tx) \<times> 'w"
  provider_getBalance :: "string \<Rightarrow> 'w \<Rightarrow> (error + int) \<times> 'w"
  quoter_quoteExactInputSingle :: "'w \<Rightarrow> quoter"
  router_estimateGas :: "swapParams \<Rightarrow> 'w \<Rightarrow> (error + int) \<times> 'w"
  router_exactInputSingle :: "swapParams \<Rightarrow> int \<Rightarrow> 'w \<Rightarrow> (error + tx) \<times> 'w"
  priceFeed_latestRoundData :: "'w \<Rightarrow> (error + int) \<times> 'w"
  tx_wait :: "tx \<Rightarrow> 'w \<Rightarrow> receipt promise \<times> 'w"

section \<open>Strings\<close>

text \<open>
  Strings are lists of ASCII characters. \<^verbatim>\<open>toLowerCase\<close> maps A to Z to a to z;
  \<open>stringIncludes s t\<close> is \<^verbatim>\<open>s.includes(t)\<close>; \<open>showNat\<close> is the decimal text of a number in
  a template literal.
\<close>

definition lowerChar :: "char \<Rightarrow> char" where
  "lowerChar c =
     (case map_of (zip ''ABCDEFGHIJKLMNOPQRSTUVWXYZ'' ''abcdefghijklmnopqrstuvwxyz'') c of
        None \<Rightarrow> c
      | Some d \<Rightarrow> d)"

definition toLowerCase :: "string \<Rightarrow> string" where
  "toLowerCase s = map lowerChar s"

fun startsWith :: "string \<Rightarrow> string \<Rightarrow> bool" where
  "startsWith s [] = True"
| "startsWith [] (c # t) = False"
| "startsWith (d # s) (c # t) = (d = c \<and> startsWith s t)"

fun stringIncludes :: "string \<Rightarrow> string \<Rightarrow> bool" where
  "stringIncludes [] t = (t = [])"
| "stringIncludes (d # s) t = (startsWith (d # s) t \<or> stringIncludes s t)"

definition digitChar :: "nat \<Rightarrow> char" where
  "digitChar d = ''0123456789'' ! d"

fun showNat :: "nat \<Rightarrow> string" where
  "showNat n =
     (if n < 10 then [digitChar n] else showNat (n div 10) @ [digitChar (n mod 10)])"

declare showNat.simps [simp del]

section \<open>Retry (src/services/blockchain.js, executeWithRetry)\<close>

definition nonRetryableMessages :: "string list" where
  "nonRetryableMessages =
     [''insufficient funds'', ''nonce too low'', ''replacement fee too low'',
      ''already known'', ''invalid private key'', ''execution reverted'']"

definition isNonRetryableError :: "error \<Rightarrow> bool" where
  "isNonRetryableError err =
     (let errorMessage = (case message err of None \<Rightarrow> [] | Some m \<Rightarrow> toLowerCase m)
      in list_ex (\<lambda>msg. stringIncludes errorMessage msg) nonRetryableMessages)"

text \<open>\<^verbatim>\<open>error.message\<close> as a value of a details object or a log line.\<close>

definition messageDetail :: "error \<Rightarrow> detail" where
  "messageDetail err = (case message err of None \<Rightarrow> DUndefined | Some m \<Rightarrow> DString m)"

text \<open>
  The delay before the retry that follows a failed attempt. The source computes it on
  numbers, \<^verbatim>\<open>RETRY_BASE_DELAY_MS * Math.pow(RETRY_BACKOFF_MULTIPLIER, attempt - 1)\<close>; the
  values are small integers, on which binary64 arithmetic is exact.
\<close>

definition retryDelay :: "nat \<Rightarrow> nat" where
  "retryDelay attempt = RETRY_BASE_DELAY_MS * RETRY_BACKOFF_MULTIPLIER ^ (attempt - 1)"

text \<open>
  The \<^verbatim>\<open>for\<close> loop of executeWithRetry from a given attempt on, with \<^verbatim>\<open>lastError\<close>; after
  the loop, the aggregate error.
\<close>

function retryLoop :: "('w, 'a) io \<Rightarrow> string \<Rightarrow> nat \<Rightarrow> error option \<Rightarrow> ('w, 'a) io" where
  "retryLoop fn operationName attempt lastError s =
     (if attempt \<le> MAX_RETRY_ATTEMPTS then
        (case fn (logged (LogAttempt operationName attempt MAX_RETRY_ATTEMPTS) s) of
           (Returns v, s') \<Rightarrow> (Returns v, s')
         | (NeverSettles, s') \<Rightarrow> (NeverSettles, s')
         | (Throws err, s') \<Rightarrow>
             if isNonRetryableError err
             then (Throws err, logged (LogNonRetryable operationName err) s')
             else if attempt < MAX_RETRY_ATTEMPTS
             then retryLoop fn operationName (attempt + 1) (Some err)
                    (logged (Sleep (retryDelay attempt))
                       (logged (LogRetrying operationName attempt (retryDelay attempt) (message err)) s'))
             else retryLoop fn operationName (attempt + 1) (Some err) s')
      else (Throws (BlockchainError
                      (operationName @ '' failed after '' @ showNat MAX_RETRY_ATTEMPTS @ '' attempts'')
                      TX_FAILED
                      [(''lastError'',
                        case lastError of None \<Rightarrow> DUndefined | Some err \<Rightarrow> messageDetail err)]),
            s))"
  by pat_completeness auto
termination
  by (relation "measure (\<lambda>(fn, operationName, attempt, lastError, s). Suc MAX_RETRY_ATTEMPTS - attempt)")
     auto

declare retryLoop.simps [simp del]

definition executeWithRetry :: "('w, 'a) io \<Rightarrow> string \<Rightarrow> ('w, 'a) io" where
  "executeWithRetry fn operationName = retryLoop fn operationName 1 None"

section \<open>Confirmation (src/services/blockchain.js, waitForTransaction)\<close>

text \<open>\<open>timeoutMs\<close> is the optional third parameter, 120000 by default.\<close>

definition waitForTransaction :: "'w chain \<Rightarrow> tx \<Rightarrow> nat option \<Rightarrow> ('w, receipt) io" where
  "waitForTransaction ch t timeoutMs =
     andThen
       (awaitRace (tx_wait ch t) (case timeoutMs of None \<Rightarrow> 120000 | Some ms \<Rightarrow> ms)
          (Error (Some ''Transaction confirmation timeout'')))
       (\<lambda>rcpt.
          if status rcpt \<noteq> Some 1
          then throw (BlockchainError ''Transaction reverted'' TX_REVERTED
                        [(''txHash'', DString (hash t)),
                         (''status'', case status rcpt of None \<Rightarrow> DNull | Some n \<Rightarrow> DNumber (int n))])
          else returns rcpt)"


section \<open>Token operations (src/services/blockchain.js)\<close>





text \<open>The callback that approveToken hands to executeWithRetry.\<close>

definition approveOnce :: "'w chain \<Rightarrow> string \<Rightarrow> string \<Rightarrow> int \<Rightarrow> ('w, tx) io" where
  "approveOnce ch tokenAddress spenderAddress amount =
     andThen (call (erc20_approve_estimateGas ch tokenAddress spenderAddress amount)) (\<lambda>gasEstimate.
     andThen (emit (SendApprove tokenAddress spenderAddress amount ((gasEstimate * 130) sdiv 100))) (\<lambda>u.
     call (erc20_approve ch tokenAddress spenderAddress amount ((gasEstimate * 130) sdiv 100))))"

text \<open>The result is \<open>None\<close> for \<^verbatim>\<open>null\<close> (the allowance was already sufficient).\<close>

definition approveToken :: "'w chain \<Rightarrow> string \<Rightarrow> string \<Rightarrow> int \<Rightarrow> ('w, receipt option) io" where
  "approveToken ch tokenAddress spenderAddress amount =
     andThen (call (wallet_getAddress ch)) (\<lambda>owner.
     andThen (call (erc20_allowance ch tokenAddress owner spenderAddress)) (\<lambda>currentAllowance.
     if currentAllowance \<ge> amount then returns None
     else
       andThen (executeWithRetry (approveOnce ch tokenAddress spenderAddress amount)
                  ''Token approval'') (\<lambda>t.
       andThen (await (tx_wait ch t)) (\<lambda>rcpt.
       if status rcpt \<noteq> Some 1
       then throw (BlockchainError ''Token approval transaction failed'' TX_REVERTED
                     [(''txHash'', DString (hash t))])
       else returns (Some rcpt)))))"

section \<open>SELL (src/services/trading.js, executeSell)\<close>








section \<open>Observations on runs\<close>






section \<open>A chain for examples\<close>

text \<open>
  A chain whose world counts the calls made. The wallet holds \<open>balance\<close> of every token
  and has granted \<open>allowance\<close>; only the 0.3 percent tier has a pool, which quotes 1000;
  every call succeeds, and the confirmation of every transaction is \<open>confirmation\<close>.
\<close>

definition exampleChain :: "int \<Rightarrow> int \<Rightarrow> receipt promise \<Rightarrow> nat chain" where
  "exampleChain balance allowance confirmation =
     \<lparr>wallet_getAddress = (\<lambda>w. (Inr ''0xWallet'', Suc w)),
      erc20_name = (\<lambda>tokenAddress w. (Inr ''Token'', Suc w)),
      erc20_symbol = (\<lambda>tokenAddress w. (Inr ''TKN'', Suc w)),
      erc20_decimals = (\<lambda>tokenAddress w. (Inr 18, Suc w)),
      erc20_balanceOf = (\<lambda>tokenAddress owner w. (Inr balance, Suc w)),
      erc20_allowance = (\<lambda>tokenAddress owner spender w. (Inr allowance, Suc w)),
      erc20_approve_estimateGas = (\<lambda>tokenAddress spender amount w. (Inr 50000, Suc w)),
      erc20_approve = (\<lambda>tokenAddress spender amount gasLimit w. (Inr \<lparr>hash = ''0xapprove''\<rparr>, Suc w)),
      provider_getBalance = (\<lambda>address w. (Inr 10000000000000000, Suc w)),
      quoter_quoteExactInputSingle = (\<lambda>w params. if qp_fee params = 3000 then Some 1000 else None),
      router_estimateGas = (\<lambda>params w. (Inr 200000, Suc w)),
      router_exactInputSingle = (\<lambda>params gasLimit w. (Inr \<lparr>hash = ''0xswap''\<rparr>, Suc w)),
      priceFeed_latestRoundData = (\<lambda>w. (Inr 250000000000, Suc w)),
      tx_wait = (\<lambda>t w. (confirmation, Suc w))\<rparr>"

text \<open>An operation that fails with a timeout on its first \<open>k\<close> calls and then succeeds.\<close>

definition flakyOperation :: "nat \<Rightarrow> nat \<Rightarrow> (error + tx) \<times> nat" where
  "flakyOperation k w =
     (if w < k then Inl (Error (Some ''request timeout'')) else Inr \<lparr>hash = ''0xswap''\<rparr>, Suc w)"

text \<open>An operation that always fails with the node's revert error.\<close>

definition revertingOperation :: "nat \<Rightarrow> (error + tx) \<times> nat" where
  "revertingOperation w = (Inl (Error (Some ''Execution Reverted: STF'')), Suc w)"

chapter \<open>Properties\<close>

section \<open>Quote selection\<close>

lemma probeTiers_Nil: "probeTiers q a b n best [] = best"
  by (simp add: probeTiers_def)

lemma probeTiers_Cons:
  "probeTiers q a b n best (t # ts) = probeTiers q a b n (probeTier q a b n best t) ts"
  by (simp add: probeTiers_def)

lemma probeTier_cases:
  "(probeTier q a b n best t = best \<and>
      (\<forall>out. tierQuote q a b n t = Some out \<longrightarrow> out \<le> amountOut best)) \<or>
   (\<exists>out. tierQuote q a b n t = Some out \<and> amountOut best < out \<and>
      probeTier q a b n best t = \<lparr>fee = t, amountOut = out\<rparr>)"
  by (cases "tierQuote q a b n t") (auto simp: probeTier_def)

lemma probeTiers_char:
  "(probeTiers q a b n best tiers = best \<and>
      (\<forall>t\<in>set tiers. \<forall>out. tierQuote q a b n t = Some out \<longrightarrow> out \<le> amountOut best)) \<or>
   (\<exists>pre post. tiers = pre @ fee (probeTiers q a b n best tiers) # post \<and>
      tierQuote q a b n (fee (probeTiers q a b n best tiers)) = Some (amountOut (probeTiers q a b n best tiers)) \<and>
      amountOut best < amountOut (probeTiers q a b n best tiers) \<and>
      (\<forall>t\<in>set pre. \<forall>out. tierQuote q a b n t = Some out \<longrightarrow> out < amountOut (probeTiers q a b n best tiers)) \<and>
      (\<forall>t\<in>set post. \<forall>out. tierQuote q a b n t = Some out \<longrightarrow> out \<le> amountOut (probeTiers q a b n best tiers)))"
  (is "?P best tiers")
proof (induction tiers arbitrary: best)
  case Nil
  then show ?case by (simp add: probeTiers_Nil)
next
  case (Cons t ts)
  let ?b1 = "probeTier q a b n best t"
  let ?r = "probeTiers q a b n ?b1 ts"
  have r: "probeTiers q a b n best (t # ts) = ?r" by (rule probeTiers_Cons)
  from probeTier_cases [of q a b n best t] show ?case
  proof (elim disjE conjE exE)
    assume same: "?b1 = best"
      and le: "\<forall>out. tierQuote q a b n t = Some out \<longrightarrow> out \<le> amountOut best"
    from Cons.IH [of best] show ?thesis
    proof (elim disjE conjE exE)
      assume "probeTiers q a b n best ts = best"
        and "\<forall>t\<in>set ts. \<forall>out. tierQuote q a b n t = Some out \<longrightarrow> out \<le> amountOut best"
      with same le r show ?thesis by auto
    next
      fix pre post
      assume ts: "ts = pre @ fee (probeTiers q a b n best ts) # post"
        and q: "tierQuote q a b n (fee (probeTiers q a b n best ts)) = Some (amountOut (probeTiers q a b n best ts))"
        and gt: "amountOut best < amountOut (probeTiers q a b n best ts)"
        and pre: "\<forall>t\<in>set pre. \<forall>out. tierQuote q a b n t = Some out \<longrightarrow> out < amountOut (probeTiers q a b n best ts)"
        and post: "\<forall>t\<in>set post. \<forall>out. tierQuote q a b n t = Some out \<longrightarrow> out \<le> amountOut (probeTiers q a b n best ts)"
      have eq: "probeTiers q a b n best (t # ts) = probeTiers q a b n best ts"
        using r same by simp
      have "t # ts = (t # pre) @ fee (probeTiers q a b n best ts) # post"
        using ts by simp
      moreover have "\<forall>u\<in>set (t # pre). \<forall>out. tierQuote q a b n u = Some out \<longrightarrow> out < amountOut (probeTiers q a b n best ts)"
        using pre le gt by fastforce
      ultimately show ?thesis
        unfolding eq using q gt post by blast
    qed
  next
    fix out
    assume qt: "tierQuote q a b n t = Some out"
      and gt: "amountOut best < out"
      and b1: "?b1 = \<lparr>fee = t, amountOut = out\<rparr>"
    from Cons.IH [of ?b1] show ?thesis
    proof (elim disjE conjE exE)
      assume same: "?r = ?b1"
        and le: "\<forall>t\<in>set ts. \<forall>out. tierQuote q a b n t = Some out \<longrightarrow> out \<le> amountOut ?b1"
      have eq: "probeTiers q a b n best (t # ts) = \<lparr>fee = t, amountOut = out\<rparr>"
        using r same b1 by simp
      have "t # ts = [] @ t # ts" by simp
      then show ?thesis
        unfolding eq using qt gt le b1 by (intro disjI2 exI [of _ "[]"] exI [of _ ts]) simp
    next
      fix pre post
      assume ts: "ts = pre @ fee ?r # post"
        and q: "tierQuote q a b n (fee ?r) = Some (amountOut ?r)"
        and gt': "amountOut ?b1 < amountOut ?r"
        and pre: "\<forall>t\<in>set pre. \<forall>out. tierQuote q a b n t = Some out \<longrightarrow> out < amountOut ?r"
        and post: "\<forall>t\<in>set post. \<forall>out. tierQuote q a b n t = Some out \<longrightarrow> out \<le> amountOut ?r"
      have o: "out < amountOut ?r" using gt' b1 by simp
      have "t # ts = (t # pre) @ fee ?r # post"
        using ts by simp
      moreover have "\<forall>u\<in>set (t # pre). \<forall>out. tierQuote q a b n u = Some out \<longrightarrow> out < amountOut ?r"
        using pre qt o by fastforce
      moreover have "amountOut best < amountOut ?r" using gt o by simp
      ultimately show ?thesis
        unfolding r using q post by blast
    qed
  qed
qed

text \<open>
  Claim C1, as amended. When at least one tier of the fixed list quotes a positive output,
  the selector returns a quote that some tier gave, whose output no tier's quote exceeds,
  and every tier probed before the returned one quoted strictly less: the running maximum
  is replaced only on a strictly greater output, so of equal outputs the earliest-probed
  tier is kept.
\<close>

theorem findBestPoolFee_maximal:
  assumes "\<exists>t\<in>set POOL_FEE_TIERS. \<exists>out. tierQuote quoter tokenIn tokenOut amountIn t = Some out \<and> 0 < out"
  shows "\<exists>best pre post.
           findBestPoolFee tokenIn tokenOut amountIn quoter = Inr best \<and>
           POOL_FEE_TIERS = pre @ fee best # post \<and>
           tierQuote quoter tokenIn tokenOut amountIn (fee best) = Some (amountOut best) \<and>
           (\<forall>t\<in>set POOL_FEE_TIERS. \<forall>out.
              tierQuote quoter tokenIn tokenOut amountIn t = Some out \<longrightarrow> out \<le> amountOut best) \<and>
           (\<forall>t\<in>set pre. \<forall>out.
              tierQuote quoter tokenIn tokenOut amountIn t = Some out \<longrightarrow> out < amountOut best)"
proof -
  define init :: quote where "init = \<lparr>fee = 0, amountOut = 0\<rparr>"
  define r where "r = probeTiers quoter tokenIn tokenOut amountIn init POOL_FEE_TIERS"
  from assms obtain t out where t: "t \<in> set POOL_FEE_TIERS"
    and out: "tierQuote quoter tokenIn tokenOut amountIn t = Some out" "0 < out"
    by blast
  have init0: "amountOut init = 0" by (simp add: init_def)
  from probeTiers_char [of quoter tokenIn tokenOut amountIn init POOL_FEE_TIERS]
  show ?thesis
    unfolding r_def [symmetric]
  proof (elim disjE conjE exE)
    assume "\<forall>t\<in>set POOL_FEE_TIERS. \<forall>out.
        tierQuote quoter tokenIn tokenOut amountIn t = Some out \<longrightarrow> out \<le> amountOut init"
    with t out init0 have False by fastforce
    then show ?thesis ..
  next
    fix pre post
    assume split: "POOL_FEE_TIERS = pre @ fee r # post"
      and q: "tierQuote quoter tokenIn tokenOut amountIn (fee r) = Some (amountOut r)"
      and gt: "amountOut init < amountOut r"
      and pre: "\<forall>t\<in>set pre. \<forall>out.
        tierQuote quoter tokenIn tokenOut amountIn t = Some out \<longrightarrow> out < amountOut r"
      and post: "\<forall>t\<in>set post. \<forall>out.
        tierQuote quoter tokenIn tokenOut amountIn t = Some out \<longrightarrow> out \<le> amountOut r"
    have res: "findBestPoolFee tokenIn tokenOut amountIn quoter = Inr r"
      using gt init0 by (simp add: findBestPoolFee_def Let_def r_def init_def)
    have all: "\<forall>t\<in>set POOL_FEE_TIERS. \<forall>out.
        tierQuote quoter tokenIn tokenOut amountIn t = Some out \<longrightarrow> out \<le> amountOut r"
    proof (intro ballI allI impI)
      fix u o'
      assume u: "u \<in> set POOL_FEE_TIERS"
        and o': "tierQuote quoter tokenIn tokenOut amountIn u = Some o'"
      from u have "u \<in> set (pre @ fee r # post)"
        using split by simp
      then have "u \<in> set pre \<or> u = fee r \<or> u \<in> set post"
        by auto
      then show "o' \<le> amountOut r"
        using pre post q o' by fastforce
    qed
    show ?thesis
      by (intro exI [of _ r] exI [of _ pre] exI [of _ post] conjI res split q all pre)
  qed
qed

text \<open>
  A probe where tiers 3000 and 10000 both quote 10 and tier 500 quotes 7: the result is
  tier 3000, the first of the two.
\<close>

theorem findBestPoolFee_maximal_witness:
  "(\<exists>t\<in>set POOL_FEE_TIERS. \<exists>out. tierQuote (\<lambda>p. if qp_fee p = 500 then Some 7 else Some 10) WETH_ADDRESS ''0xT'' 5 t = Some out \<and> 0 < out) \<and>
   (\<exists>best pre post.
           findBestPoolFee WETH_ADDRESS ''0xT'' 5 (\<lambda>p. if qp_fee p = 500 then Some 7 else Some 10) = Inr best \<and>
           POOL_FEE_TIERS = pre @ fee best # post \<and>
           tierQuote (\<lambda>p. if qp_fee p = 500 then Some 7 else Some 10) WETH_ADDRESS ''0xT'' 5 (fee best) = Some (amountOut best) \<and>
           (\<forall>t\<in>set POOL_FEE_TIERS. \<forall>out.
              tierQuote (\<lambda>p. if qp_fee p = 500 then Some 7 else Some 10) WETH_ADDRESS ''0xT'' 5 t = Some out \<longrightarrow> out \<le> amountOut best) \<and>
           (\<forall>t\<in>set pre. \<forall>out.
              tierQuote (\<lambda>p. if qp_fee p = 500 then Some 7 else Some 10) WETH_ADDRESS ''0xT'' 5 t = Some out \<longrightarrow> out < amountOut best)) \<and>
   findBestPoolFee WETH_ADDRESS ''0xT'' 5 (\<lambda>p. if qp_fee p = 500 then Some 7 else Some 10) = Inr \<lparr>fee = 3000, amountOut = 10\<rparr>"
proof -
  have h: "\<exists>t\<in>set POOL_FEE_TIERS. \<exists>out. tierQuote (\<lambda>p. if qp_fee p = 500 then Some 7 else Some 10) WETH_ADDRESS ''0xT'' 5 t = Some out \<and> 0 < out"
    by (simp add: POOL_FEE_TIERS_def tierQuote_def)
  have e: "findBestPoolFee WETH_ADDRESS ''0xT'' 5 (\<lambda>p. if qp_fee p = 500 then Some 7 else Some 10) = Inr \<lparr>fee = 3000, amountOut = 10\<rparr>"
    by (simp add: findBestPoolFee_def probeTiers_def probeTier_def tierQuote_def POOL_FEE_TIERS_def)
  show ?thesis
    by (intro conjI h findBestPoolFee_maximal [OF h] e)
qed

text \<open>
  Claim C1 as it was stated fails: the query for tier 3000 succeeds with output 0 (the
  other two raise), and the selector raises NoLiquidity instead of returning that quote.
\<close>

theorem findBestPoolFee_zero_quote_counterexample:
  "tierQuote (\<lambda>p. if qp_fee p = 3000 then Some 0 else None) WETH_ADDRESS ''0xT'' 5 3000 = Some 0 \<and>
   3000 \<in> set POOL_FEE_TIERS \<and>
   findBestPoolFee WETH_ADDRESS ''0xT'' 5 (\<lambda>p. if qp_fee p = 3000 then Some 0 else None) =
     Inl (BlockchainError ''No liquidity found for token pair'' NO_LIQUIDITY
            [(''tokenIn'', DString WETH_ADDRESS), (''tokenOut'', DString ''0xT'')])"
  by (simp add: findBestPoolFee_def probeTiers_def probeTier_def tierQuote_def POOL_FEE_TIERS_def)

text \<open>
  Claim C3. When no tier of the list gave a usable quote (every query raised or returned
  no positive output), the selector fails with the NO_LIQUIDITY error whose details hold
  tokenIn and tokenOut; and whatever the quoter does, a quote the selector returns has a
  positive output, never zero.
\<close>

theorem findBestPoolFee_no_liquidity:
  "((\<forall>t\<in>set POOL_FEE_TIERS. \<forall>out.
       tierQuote quoter tokenIn tokenOut amountIn t = Some out \<longrightarrow> out \<le> 0) \<longrightarrow>
    findBestPoolFee tokenIn tokenOut amountIn quoter =
      Inl (BlockchainError ''No liquidity found for token pair'' NO_LIQUIDITY
             [(''tokenIn'', DString tokenIn), (''tokenOut'', DString tokenOut)])) \<and>
   (\<forall>best. findBestPoolFee tokenIn tokenOut amountIn quoter = Inr best \<longrightarrow> 0 < amountOut best)"
proof -
  define init :: quote where "init = \<lparr>fee = 0, amountOut = 0\<rparr>"
  define r where "r = probeTiers quoter tokenIn tokenOut amountIn init POOL_FEE_TIERS"
  have init0: "amountOut init = 0" by (simp add: init_def)
  have fb: "findBestPoolFee tokenIn tokenOut amountIn quoter =
      (if amountOut r = 0
       then Inl (BlockchainError ''No liquidity found for token pair'' NO_LIQUIDITY
             [(''tokenIn'', DString tokenIn), (''tokenOut'', DString tokenOut)])
       else Inr r)"
    by (simp add: findBestPoolFee_def Let_def r_def init_def)
  have cases: "r = init \<or> 0 < amountOut r"
    using probeTiers_char [of quoter tokenIn tokenOut amountIn init POOL_FEE_TIERS] init0
    unfolding r_def [symmetric] by auto
  have none: "amountOut r = 0"
    if "\<forall>t\<in>set POOL_FEE_TIERS. \<forall>out.
       tierQuote quoter tokenIn tokenOut amountIn t = Some out \<longrightarrow> out \<le> 0"
  proof -
    from cases show ?thesis
    proof
      assume "r = init" then show ?thesis using init0 by simp
    next
      assume pos: "0 < amountOut r"
      from probeTiers_char [of quoter tokenIn tokenOut amountIn init POOL_FEE_TIERS]
      have "r = init \<or> (\<exists>pre post. POOL_FEE_TIERS = pre @ fee r # post \<and>
              tierQuote quoter tokenIn tokenOut amountIn (fee r) = Some (amountOut r))"
        unfolding r_def [symmetric] by blast
      then show ?thesis
      proof
        assume "r = init" then show ?thesis using init0 by simp
      next
        assume "\<exists>pre post. POOL_FEE_TIERS = pre @ fee r # post \<and>
              tierQuote quoter tokenIn tokenOut amountIn (fee r) = Some (amountOut r)"
        then obtain pre post where split: "POOL_FEE_TIERS = pre @ fee r # post"
          and q: "tierQuote quoter tokenIn tokenOut amountIn (fee r) = Some (amountOut r)"
          by blast
        have "fee r \<in> set (pre @ fee r # post)" by simp
        then have "fee r \<in> set POOL_FEE_TIERS" using split by simp
        with that q have "amountOut r \<le> 0" by blast
        with pos show ?thesis by simp
      qed
    qed
  qed
  have a: "findBestPoolFee tokenIn tokenOut amountIn quoter =
      Inl (BlockchainError ''No liquidity found for token pair'' NO_LIQUIDITY
             [(''tokenIn'', DString tokenIn), (''tokenOut'', DString tokenOut)])"
    if "\<forall>t\<in>set POOL_FEE_TIERS. \<forall>out.
       tierQuote quoter tokenIn tokenOut amountIn t = Some out \<longrightarrow> out \<le> 0"
    using none [OF that] fb by simp
  have b: "0 < amountOut best" if "findBestPoolFee tokenIn tokenOut amountIn quoter = Inr best" for best
  proof -
    from that fb have "amountOut r \<noteq> 0" "best = r" by (auto split: if_splits)
    with cases init0 show ?thesis by auto
  qed
  show ?thesis
    using a b by (intro conjI impI allI)
qed

text \<open>
  A probe where every query raises, and one where a quote is returned.
\<close>

theorem findBestPoolFee_no_liquidity_witness:
  "findBestPoolFee WETH_ADDRESS ''0xT'' 5 (\<lambda>p. None) =
      Inl (BlockchainError ''No liquidity found for token pair'' NO_LIQUIDITY
             [(''tokenIn'', DString WETH_ADDRESS), (''tokenOut'', DString ''0xT'')]) \<and>
   findBestPoolFee ''0xT'' WETH_ADDRESS 5 (\<lambda>p. if qp_fee p = 500 then Some 7 else Some 10) = Inr \<lparr>fee = 3000, amountOut = 10\<rparr> \<and>
   0 < amountOut \<lparr>fee = 3000, amountOut = 10\<rparr>"
proof -
  have h: "\<forall>t\<in>set POOL_FEE_TIERS. \<forall>out.
       tierQuote (\<lambda>p. None) WETH_ADDRESS ''0xT'' 5 t = Some out \<longrightarrow> out \<le> 0"
    by (simp add: tierQuote_def)
  have e: "findBestPoolFee ''0xT'' WETH_ADDRESS 5 (\<lambda>p. if qp_fee p = 500 then Some 7 else Some 10) = Inr \<lparr>fee = 3000, amountOut = 10\<rparr>"
    by (simp add: findBestPoolFee_def probeTiers_def probeTier_def tierQuote_def POOL_FEE_TIERS_def)
  from findBestPoolFee_no_liquidity [of "\<lambda>p. None" WETH_ADDRESS "''0xT''" 5] h
  have 1: "findBestPoolFee WETH_ADDRESS ''0xT'' 5 (\<lambda>p. None) =
      Inl (BlockchainError ''No liquidity found for token pair'' NO_LIQUIDITY
             [(''tokenIn'', DString WETH_ADDRESS), (''tokenOut'', DString ''0xT'')])"
    by blast
  from findBestPoolFee_no_liquidity [of "\<lambda>p. if qp_fee p = 500 then Some 7 else Some 10" "''0xT''" WETH_ADDRESS 5] e
  have 2: "0 < amountOut \<lparr>fee = 3000, amountOut = 10\<rparr>" by blast
  show ?thesis
    by (intro conjI 1 e 2)
qed

section \<open>Binary64 rounding\<close>

lemma bitLength_bounds:
  "0 < n \<Longrightarrow> 2 ^ (bitLength n - 1) \<le> n \<and> n < 2 ^ bitLength n"
proof (induction n rule: bitLength.induct)
  case (1 n)
  show ?case
  proof (cases "n div 2 = 0")
    case True
    with "1.prems" have "n = 1" by (cases n) auto
    then show ?thesis by (simp add: bitLength.simps)
  next
    case False
    then have pos: "0 < n div 2" by simp
    from "1.prems" have n0: "n \<noteq> 0" by simp
    from "1.IH" [OF n0 pos]
    have lo: "2 ^ (bitLength (n div 2) - 1) \<le> n div 2" and hi: "n div 2 < 2 ^ bitLength (n div 2)"
      by simp_all
    have bl: "bitLength n = Suc (bitLength (n div 2))"
      using n0 by (subst bitLength.simps) simp
    have blpos: "0 < bitLength (n div 2)"
      using pos by (subst bitLength.simps) simp
    then have suc: "bitLength (n div 2) = Suc (bitLength (n div 2) - 1)" by simp
    have "2 ^ (bitLength n - 1) = 2 * 2 ^ (bitLength (n div 2) - 1)"
      unfolding bl using suc by (metis diff_Suc_1 power_Suc)
    also have "\<dots> \<le> 2 * (n div 2)" using lo by simp
    also have "\<dots> \<le> n" by simp
    finally have A: "2 ^ (bitLength n - 1) \<le> n" .
    have "n < 2 * (n div 2) + 2" by presburger
    also have "\<dots> \<le> 2 * 2 ^ bitLength (n div 2)" using hi by simp
    finally have B: "n < 2 ^ bitLength n" unfolding bl by simp
    from A B show ?thesis by simp
  qed
qed

lemma bitLength_pos: "0 < n \<Longrightarrow> 0 < bitLength n"
  by (subst bitLength.simps) simp

lemma ilog2_bounds:
  assumes "0 < x"
  shows "2 powi (ilog2 x) \<le> x \<and> x < 2 powi (ilog2 x + 1)"
proof (cases "1 \<le> x")
  case True
  define m where "m = nat \<lfloor>x\<rfloor>"
  have fl: "1 \<le> \<lfloor>x\<rfloor>" using True by simp
  then have m: "0 < m" "int m = \<lfloor>x\<rfloor>" by (simp_all add: m_def)
  from bitLength_bounds [OF m(1)] have lo: "2 ^ (bitLength m - 1) \<le> m" and hi: "m < 2 ^ bitLength m"
    by simp_all
  have e: "ilog2 x = int (bitLength m - 1)"
    using True bitLength_pos [OF m(1)] by (simp add: ilog2_def m_def)
  have e1: "ilog2 x + 1 = int (bitLength m)"
    using e bitLength_pos [OF m(1)] by simp
  have "(2::rat) powi (ilog2 x) = of_nat (2 ^ (bitLength m - 1))"
    unfolding e by simp
  also have "\<dots> \<le> of_nat m" using lo by (simp only: of_nat_le_iff)
  also have "\<dots> = of_int \<lfloor>x\<rfloor>" using m(2) by (metis of_int_of_nat_eq)
  also have "\<dots> \<le> x" by simp
  finally have A: "2 powi (ilog2 x) \<le> x" .
  have "int m < int (2 ^ bitLength m)" using hi by (simp only: of_nat_less_iff)
  then have "\<lfloor>x\<rfloor> + 1 \<le> int (2 ^ bitLength m)" using m(2) by linarith
  then have "(of_int (\<lfloor>x\<rfloor> + 1) :: rat) \<le> of_int (int (2 ^ bitLength m))"
    by (simp only: of_int_le_iff)
  moreover have "x < of_int (\<lfloor>x\<rfloor> + 1)" by linarith
  ultimately have "x < of_int (int (2 ^ bitLength m))" by linarith
  then have B: "x < 2 powi (ilog2 x + 1)" unfolding e1 by simp
  from A B show ?thesis by simp
next
  case False
  define y where "y = 1 / x"
  have y1: "1 < y" using False assms by (simp add: y_def)
  define m where "m = nat (\<lceil>y\<rceil> - 1)"
  have c2: "2 \<le> \<lceil>y\<rceil>" using y1 by linarith
  then have m: "0 < m" "int m = \<lceil>y\<rceil> - 1" by (simp_all add: m_def)
  from bitLength_bounds [OF m(1)] have lo: "2 ^ (bitLength m - 1) \<le> m" and hi: "m < 2 ^ bitLength m"
    by simp_all
  define k where "k = bitLength m"
  have kpos: "0 < k" using bitLength_pos [OF m(1)] by (simp add: k_def)
  have e: "ilog2 x = - int k"
    using False by (simp add: ilog2_def m_def y_def k_def)
  have "int m < int (2 ^ k)" using hi unfolding k_def by (simp only: of_nat_less_iff)
  then have "\<lceil>y\<rceil> \<le> int (2 ^ k)" using m(2) by linarith
  then have "(of_int \<lceil>y\<rceil> :: rat) \<le> of_int (int (2 ^ k))" by (simp only: of_int_le_iff)
  moreover have "y \<le> of_int \<lceil>y\<rceil>" by simp
  ultimately have "y \<le> of_int (int (2 ^ k))" by linarith
  then have yk: "y \<le> 2 ^ k" by simp
  have xpos: "0 < x" by fact
  have "1 \<le> x * 2 ^ k" using yk xpos by (simp add: y_def field_simps)
  then have A: "2 powi (ilog2 x) \<le> x"
    unfolding e by (simp add: power_int_minus field_simps)
  have "int (2 ^ (k - 1)) \<le> int m" using lo unfolding k_def by (simp only: of_nat_le_iff)
  then have "int (2 ^ (k - 1)) \<le> \<lceil>y\<rceil> - 1" using m(2) by linarith
  then have "(of_int (int (2 ^ (k - 1))) :: rat) \<le> of_int (\<lceil>y\<rceil> - 1)" by (simp only: of_int_le_iff)
  moreover have "of_int (\<lceil>y\<rceil> - 1) < y" by linarith
  ultimately have "of_int (int (2 ^ (k - 1))) < y" by linarith
  then have "2 ^ (k - 1) < y" by simp
  then have "x * 2 ^ (k - 1) < 1" using xpos by (simp add: y_def field_simps)
  moreover have "ilog2 x + 1 = - int (k - 1)" using e kpos by simp
  ultimately have B: "x < 2 powi (ilog2 x + 1)"
    by (simp add: power_int_minus field_simps)
  from A B show ?thesis by simp
qed



lemma roundHalfEven_of_int: "roundHalfEven (of_int k) = k"
  by (simp add: roundHalfEven_def)

lemma roundHalfEven_between:
  "\<lfloor>y\<rfloor> \<le> roundHalfEven y \<and> roundHalfEven y \<le> \<lfloor>y\<rfloor> + 1"
  by (simp add: roundHalfEven_def Let_def)

lemma roundHalfEven_le_int:
  assumes "y \<le> of_int M"
  shows "roundHalfEven y \<le> M"
proof (cases "y = of_int M")
  case True
  then show ?thesis by (simp add: roundHalfEven_of_int)
next
  case False
  with assms have "y < of_int M" by simp
  then have "\<lfloor>y\<rfloor> < M" by (simp add: floor_less_iff)
  with roundHalfEven_between [of y] show ?thesis by linarith
qed

lemma roundHalfEven_ge_int:
  assumes "of_int M \<le> y"
  shows "M \<le> roundHalfEven y"
proof -
  from assms have "M \<le> \<lfloor>y\<rfloor>" by (simp add: le_floor_iff)
  with roundHalfEven_between [of y] show ?thesis by linarith
qed

lemma roundHalfEven_error: "\<bar>of_int (roundHalfEven y) - y\<bar> \<le> 1 / 2"
proof -
  have "of_int \<lfloor>y\<rfloor> \<le> y" "y < of_int \<lfloor>y\<rfloor> + 1" by linarith+
  then show ?thesis
    by (auto simp: roundHalfEven_def Let_def abs_le_iff)
qed

lemma round64_ulp: "x \<noteq> 0 \<Longrightarrow> round64 x = of_int (roundHalfEven (x / ulpOf x)) * ulpOf x"
  by (simp add: round64_def)

lemma ulpOf_pos: "0 < ulpOf x"
  by (simp add: ulpOf_def)

lemma round64_nonneg:
  assumes "0 \<le> x"
  shows "0 \<le> round64 x"
proof (cases "x = 0")
  case True
  then show ?thesis by (simp add: round64_def)
next
  case False
  have "0 \<le> x / ulpOf x" using assms ulpOf_pos [of x] by simp
  then have "(of_int 0 :: rat) \<le> x / ulpOf x" by simp
  then have "0 \<le> roundHalfEven (x / ulpOf x)" by (rule roundHalfEven_ge_int)
  then show ?thesis
    using ulpOf_pos [of x] by (simp add: round64_ulp [OF False])
qed

lemma two_powi_less_cancel: "(2::rat) powi a < 2 powi b \<Longrightarrow> a < b"
proof (rule ccontr)
  assume less: "(2::rat) powi a < 2 powi b" and "\<not> a < b"
  then have "b \<le> a" by simp
  then have "(2::rat) powi b \<le> 2 powi a" by (rule power_int_increasing) simp
  with less show False by simp
qed

text \<open>Below 2^53 the unit in the last place is 2^-k for a natural k: integers are multiples.\<close>

lemma ulpOf_small:
  assumes "0 < x" "x < 2 ^ 53"
  shows "\<exists>k::nat. ulpOf x = 1 / 2 ^ k"
proof -
  from ilog2_bounds [of x] assms have "2 powi (ilog2 x) < (2::rat) powi 53"
    by simp
  then have "ilog2 x < 53"
    by (rule two_powi_less_cancel)
  then have le: "max (ilog2 x) (- 1022) - 52 \<le> 0" by simp
  define k where "k = nat (- (max (ilog2 x) (- 1022) - 52))"
  have "max (ilog2 x) (- 1022) - 52 = - int k" using le by (simp add: k_def)
  then have "ulpOf x = 2 powi (- int k)" using assms by (simp add: ulpOf_def)
  then have "ulpOf x = 1 / 2 ^ k" by (simp add: power_int_minus field_simps)
  then show ?thesis ..
qed

lemma round64_le_int:
  assumes "0 \<le> x" "x \<le> of_int N" "N < 2 ^ 53"
  shows "round64 x \<le> of_int N"
proof (cases "x = 0")
  case True
  with assms show ?thesis by (simp add: round64_def)
next
  case False
  with assms have xpos: "0 < x" by simp
  have "(of_int N :: rat) < of_int (2 ^ 53)" using assms(3) by (simp only: of_int_less_iff)
  then have "x < 2 ^ 53" using assms(2) by simp
  from ulpOf_small [OF xpos this] obtain k :: nat where k: "ulpOf x = 1 / 2 ^ k" ..
  have "x / ulpOf x \<le> of_int N / ulpOf x"
    using assms(2) ulpOf_pos [of x] by (simp add: divide_right_mono)
  also have "of_int N / ulpOf x = of_int (N * 2 ^ k)" by (simp add: k)
  finally have "roundHalfEven (x / ulpOf x) \<le> N * 2 ^ k" by (rule roundHalfEven_le_int)
  then have "(of_int (roundHalfEven (x / ulpOf x)) :: rat) \<le> of_int (N * 2 ^ k)"
    by (simp only: of_int_le_iff)
  then have le: "of_int (roundHalfEven (x / ulpOf x)) * ulpOf x \<le> of_int (N * 2 ^ k) * ulpOf x"
    using ulpOf_pos [of x] by (simp only: mult_right_mono less_imp_le)
  have "round64 x = of_int (roundHalfEven (x / ulpOf x)) * ulpOf x"
    by (simp add: round64_ulp [OF False])
  also note le
  also have "of_int (N * 2 ^ k) * ulpOf x = of_int N" unfolding k by simp
  finally show ?thesis .
qed

lemma round64_ge_int:
  assumes "0 < x" "of_int N \<le> x" "N < 2 ^ 53"
  shows "of_int N \<le> round64 x"
proof (cases "x < 2 ^ 53")
  case True
  have nz: "x \<noteq> 0" using assms by simp
  from ulpOf_small [OF assms(1) True] obtain k :: nat where k: "ulpOf x = 1 / 2 ^ k" ..
  have "of_int N / ulpOf x \<le> x / ulpOf x"
    using assms(2) ulpOf_pos [of x] by (simp add: divide_right_mono)
  moreover have "of_int N / ulpOf x = of_int (N * 2 ^ k)" by (simp add: k)
  ultimately have "of_int (N * 2 ^ k) \<le> x / ulpOf x" by simp
  then have "N * 2 ^ k \<le> roundHalfEven (x / ulpOf x)" by (rule roundHalfEven_ge_int)
  then have "(of_int (N * 2 ^ k) :: rat) \<le> of_int (roundHalfEven (x / ulpOf x))"
    by (simp only: of_int_le_iff)
  then have le: "of_int (N * 2 ^ k) * ulpOf x \<le> of_int (roundHalfEven (x / ulpOf x)) * ulpOf x"
    using ulpOf_pos [of x] by (simp only: mult_right_mono less_imp_le)
  have "of_int N = of_int (N * 2 ^ k) * ulpOf x" unfolding k by simp
  also note le
  also have "of_int (roundHalfEven (x / ulpOf x)) * ulpOf x = round64 x"
    by (simp add: round64_ulp [OF nz])
  finally show ?thesis .
next
  case False
  have nz: "x \<noteq> 0" using assms by simp
  define e where "e = ilog2 x"
  have big: "2 ^ 53 \<le> x" using False by simp
  from ilog2_bounds [OF assms(1)] have lo: "2 powi e \<le> x" and hi: "x < 2 powi (e + 1)"
    by (simp_all add: e_def)
  from big hi have "(2::rat) powi 53 < 2 powi (e + 1)" by simp
  then have "53 < e + 1"
    by (rule two_powi_less_cancel)
  then have e53: "53 \<le> e" by simp
  have u: "ulpOf x = 2 powi (e - 52)"
    using assms(1) e53 by (simp add: ulpOf_def e_def)
  have "2 powi e / ulpOf x \<le> x / ulpOf x"
    using lo ulpOf_pos [of x] by (simp add: divide_right_mono)
  moreover have "(2::rat) powi e / ulpOf x = 2 powi 52"
    unfolding u by (simp add: power_int_diff)
  ultimately have "of_int (2 ^ 52) \<le> x / ulpOf x" by simp
  then have "2 ^ 52 \<le> roundHalfEven (x / ulpOf x)" by (rule roundHalfEven_ge_int)
  then have "(of_int (2 ^ 52) :: rat) \<le> of_int (roundHalfEven (x / ulpOf x))"
    by (simp only: of_int_le_iff)
  then have "of_int (2 ^ 52) * ulpOf x \<le> of_int (roundHalfEven (x / ulpOf x)) * ulpOf x"
    using ulpOf_pos [of x] by (simp only: mult_right_mono less_imp_le)
  moreover have "of_int (2 ^ 52) * ulpOf x = (2::rat) powi e"
    unfolding u by (simp add: power_int_diff)
  ultimately have "2 powi e \<le> round64 x" by (simp add: round64_ulp [OF nz])
  moreover have "(2::rat) powi 53 \<le> 2 powi e"
    using e53 by (intro power_int_increasing) simp_all
  moreover have "(of_int N :: rat) < of_int (2 ^ 53)" using assms(3) by (simp only: of_int_less_iff)
  ultimately show ?thesis by simp
qed

lemma round64_error:
  assumes "x \<noteq> 0"
  shows "\<bar>round64 x - x\<bar> \<le> ulpOf x / 2"
proof -
  have "\<bar>of_int (roundHalfEven (x / ulpOf x)) - x / ulpOf x\<bar> \<le> 1 / 2"
    by (rule roundHalfEven_error)
  then have "\<bar>of_int (roundHalfEven (x / ulpOf x)) - x / ulpOf x\<bar> * ulpOf x \<le> 1 / 2 * ulpOf x"
    using ulpOf_pos [of x] by (simp only: mult_right_mono less_imp_le)
  moreover have "\<bar>of_int (roundHalfEven (x / ulpOf x)) - x / ulpOf x\<bar> * ulpOf x
      = \<bar>of_int (roundHalfEven (x / ulpOf x)) * ulpOf x - x\<bar>"
  proof -
    have "\<bar>of_int (roundHalfEven (x / ulpOf x)) - x / ulpOf x\<bar> * ulpOf x
      = \<bar>(of_int (roundHalfEven (x / ulpOf x)) - x / ulpOf x) * ulpOf x\<bar>"
      using ulpOf_pos [of x] by (simp add: abs_mult)
    also have "(of_int (roundHalfEven (x / ulpOf x)) - x / ulpOf x) * ulpOf x
      = of_int (roundHalfEven (x / ulpOf x)) * ulpOf x - x"
      using ulpOf_pos [of x] by (simp add: field_simps)
    finally show ?thesis .
  qed
  ultimately show ?thesis by (simp add: round64_ulp [OF assms])
qed

lemma two_53_less_1024: "(2::rat) ^ 53 < 2 ^ 1024"
  by (rule power_strict_increasing) simp_all

lemma toNumber_Finite:
  assumes "0 \<le> x" "x \<le> of_int N" "N < 2 ^ 53"
  shows "toNumber x = Finite (round64 x)"
proof -
  have lo: "0 \<le> round64 x" using assms(1) by (rule round64_nonneg)
  have "round64 x \<le> of_int N" using assms by (rule round64_le_int)
  moreover have "(of_int N :: rat) < of_int (2 ^ 53)" using assms(3) by (simp only: of_int_less_iff)
  ultimately have "round64 x < 2 ^ 53" by simp
  with two_53_less_1024 have hi: "round64 x < 2 ^ 1024" by simp
  have neg: "- (2 ^ 1024) < (0::rat)" by simp
  from lo neg have "\<not> round64 x \<le> - (2 ^ 1024)" by linarith
  with hi show ?thesis by (simp add: toNumber_def Let_def)
qed

lemma BigInt_floor: "BigInt (Math_floor (Finite x)) = Inr \<lfloor>x\<rfloor>"
  by simp

lemma slippageBps_percent:
  assumes "0 \<le> S" "S \<le> 100"
  shows "BigInt (Math_floor (jsMul (Finite S) (Finite 100))) = Inr \<lfloor>round64 (S * 100)\<rfloor>"
    and "0 \<le> \<lfloor>round64 (S * 100)\<rfloor>" and "\<lfloor>round64 (S * 100)\<rfloor> \<le> 10000"
proof -
  have x0: "0 \<le> S * 100" using assms by simp
  have x1: "S * 100 \<le> of_int 10000" using assms by simp
  have n: "(10000::int) < 2 ^ 53" by simp
  have "toNumber (S * 100) = Finite (round64 (S * 100))"
    using x0 x1 n by (rule toNumber_Finite)
  then show "BigInt (Math_floor (jsMul (Finite S) (Finite 100))) = Inr \<lfloor>round64 (S * 100)\<rfloor>"
    by simp
  have "0 \<le> round64 (S * 100)" using x0 by (rule round64_nonneg)
  then show "0 \<le> \<lfloor>round64 (S * 100)\<rfloor>" by simp
  have "round64 (S * 100) \<le> of_int 10000" using x0 x1 n by (rule round64_le_int)
  then show "\<lfloor>round64 (S * 100)\<rfloor> \<le> 10000" by (simp add: floor_le_iff)
qed

lemma sdiv_nonneg: "0 \<le> a \<Longrightarrow> 0 \<le> b \<Longrightarrow> (a::int) sdiv b = a div b"
  by (cases "a = 0"; cases "b = 0") (simp_all add: signed_divide_int_def)

lemma deduction_bounds:
  assumes "0 \<le> (E::int)" "0 \<le> b" "b \<le> 10000"
  shows "0 \<le> (E * b) div 10000" and "(E * b) div 10000 \<le> E"
proof -
  show "0 \<le> (E * b) div 10000" using assms by (simp add: pos_imp_zdiv_nonneg_iff)
  have "E * b \<le> E * 10000" using assms by (simp add: mult_left_mono)
  then have "(E * b) div 10000 \<le> (E * 10000) div 10000" by (rule zdiv_mono1) simp
  then show "(E * b) div 10000 \<le> E" by simp
qed

section \<open>Slippage\<close>

lemma toNumber_Finite_below:
  assumes "0 \<le> x" "round64 x < 2 ^ 1024"
  shows "toNumber x = Finite (round64 x)"
proof -
  have lo: "0 \<le> round64 x" using assms(1) by (rule round64_nonneg)
  have neg: "- (2 ^ 1024) < (0::rat)" by simp
  from lo neg have "\<not> round64 x \<le> - (2 ^ 1024)" by linarith
  with assms(2) show ?thesis by (simp add: toNumber_def Let_def)
qed

lemma calculateMinOutput_nonneg_slippage:
  assumes "0 \<le> E" "0 \<le> S" "round64 (S * 100) < 2 ^ 1024"
  shows "calculateMinOutput E (Finite S) = Inr (E - (E * \<lfloor>round64 (S * 100)\<rfloor>) div 10000)"
proof -
  have x0: "0 \<le> S * 100" using assms by simp
  have t: "toNumber (S * 100) = Finite (round64 (S * 100))"
    using x0 assms(3) by (rule toNumber_Finite_below)
  have "0 \<le> round64 (S * 100)" using x0 by (rule round64_nonneg)
  then have b0: "0 \<le> \<lfloor>round64 (S * 100)\<rfloor>" by simp
  have "0 \<le> E * \<lfloor>round64 (S * 100)\<rfloor>" using assms(1) b0 by simp
  then have "(E * \<lfloor>round64 (S * 100)\<rfloor>) sdiv 10000 = (E * \<lfloor>round64 (S * 100)\<rfloor>) div 10000"
    by (rule sdiv_nonneg) simp
  then show ?thesis by (simp add: calculateMinOutput_def t)
qed

lemma round64_percent_below:
  assumes "0 \<le> S" "S \<le> 100"
  shows "round64 (S * 100) < 2 ^ 1024"
proof -
  have "round64 (S * 100) \<le> of_int 10000"
    using assms by (intro round64_le_int) simp_all
  moreover have "(of_int 10000 :: rat) < 2 ^ 53" by simp
  ultimately have "round64 (S * 100) < 2 ^ 53" by linarith
  with two_53_less_1024 show ?thesis by linarith
qed

lemma sdiv_mult_self: "(E * 10000) sdiv 10000 = (E::int)"
proof -
  have "\<bar>E * 10000\<bar> div 10000 = \<bar>E\<bar>" by (simp add: abs_mult)
  moreover have "sgn (E * 10000) = sgn E" by (simp add: sgn_mult)
  ultimately show ?thesis
    by (simp add: signed_divide_int_def mult_sgn_abs)
qed

text \<open>For a percentage in [0, 100] the result is at most \<open>E\<close>; at 0 percent it is \<open>E\<close>.\<close>

lemma calculateMinOutput_at_most:
  assumes "0 \<le> E" "0 \<le> S" "S \<le> 100"
  shows "\<exists>m. calculateMinOutput E (Finite S) = Inr m \<and> m \<le> E"
proof -
  from assms(2,3) have "round64 (S * 100) < 2 ^ 1024" by (rule round64_percent_below)
  with assms(1,2)
  have f: "calculateMinOutput E (Finite S) = Inr (E - (E * \<lfloor>round64 (S * 100)\<rfloor>) div 10000)"
    by (rule calculateMinOutput_nonneg_slippage)
  have "0 \<le> (E * \<lfloor>round64 (S * 100)\<rfloor>) div 10000"
    using assms(1) slippageBps_percent(2) [OF assms(2,3)] slippageBps_percent(3) [OF assms(2,3)]
    by (rule deduction_bounds)
  with f show ?thesis by simp
qed

lemma calculateMinOutput_zero_percent: "calculateMinOutput E (Finite 0) = Inr E"
  by (simp add: calculateMinOutput_def toNumber_def round64_def)

text \<open>
  Above 100 percent: 10000 basis points give 0 for every \<open>E\<close>, more than 10000 a negative
  result for every \<open>E \<ge> 10000\<close>.
\<close>

lemma calculateMinOutput_10000_bps:
  assumes "100 \<le> S" "round64 (S * 100) < 10001"
  shows "calculateMinOutput E (Finite S) = Inr 0"
proof -
  have x: "of_int 10000 \<le> S * 100" using assms(1) by simp
  then have xpos: "0 < S * 100" by simp
  have lo: "of_int 10000 \<le> round64 (S * 100)"
    using xpos x by (rule round64_ge_int) simp
  have "round64 (S * 100) < 2 ^ 53" using assms(2) by simp
  with two_53_less_1024 have "round64 (S * 100) < 2 ^ 1024" by linarith
  with xpos have t: "toNumber (S * 100) = Finite (round64 (S * 100))"
    by (intro toNumber_Finite_below) simp_all
  have f: "\<lfloor>round64 (S * 100)\<rfloor> = 10000"
    using lo assms(2) by (intro floor_unique) simp_all
  show ?thesis
    by (simp add: calculateMinOutput_def t f sdiv_mult_self)
qed

lemma calculateMinOutput_above_10000_bps:
  assumes "10000 \<le> E" "0 \<le> S" "10001 \<le> round64 (S * 100)" "round64 (S * 100) < 2 ^ 1024"
  shows "\<exists>m. calculateMinOutput E (Finite S) = Inr m \<and> m < 0"
proof -
  have E0: "0 \<le> E" using assms(1) by simp
  have "of_int 10001 \<le> round64 (S * 100)" using assms(3) by simp
  then have b: "10001 \<le> \<lfloor>round64 (S * 100)\<rfloor>" by (simp only: le_floor_iff)
  have "E * 10001 \<le> E * \<lfloor>round64 (S * 100)\<rfloor>" using E0 b by (simp add: mult_left_mono)
  then have "(E * 10001) div 10000 \<le> (E * \<lfloor>round64 (S * 100)\<rfloor>) div 10000"
    by (rule zdiv_mono1) simp
  moreover have "E < (E * 10001) div 10000" using assms(1) by simp
  ultimately have "E - (E * \<lfloor>round64 (S * 100)\<rfloor>) div 10000 < 0" by simp
  with calculateMinOutput_nonneg_slippage [OF E0 assms(2,4)] show ?thesis by simp
qed

text \<open>
  Claim C10, as amended. The slippage percentage is not validated. For \<open>E \<ge> 0\<close> and
  \<open>S\<close> in [0, 100] the result is not negative, and at \<open>S = 100\<close> it is 0. Above 100 the
  result follows the basis points that the code takes, the floor of the binary64 product
  \<open>S * 100\<close>: while the product is below 10001 the result is still 0, for every \<open>E\<close>; once
  it is 10001 or more, and finite, the result is negative for every \<open>E \<ge> 10000\<close>. The
  product is 10001 or more for every \<open>S \<ge> 100.01\<close>, so at \<open>S = 101\<close>.
\<close>

theorem calculateMinOutput_range:
  "(0 \<le> E \<and> 0 \<le> S \<and> S \<le> 100 \<longrightarrow>
      (\<exists>m. calculateMinOutput E (Finite S) = Inr m \<and> 0 \<le> m)) \<and>
   calculateMinOutput E (Finite 100) = Inr 0 \<and>
   (100 \<le> S \<and> round64 (S * 100) < 10001 \<longrightarrow> calculateMinOutput E (Finite S) = Inr 0) \<and>
   (10000 \<le> E \<and> 100 \<le> S \<and> 10001 \<le> round64 (S * 100) \<and> round64 (S * 100) < 2 ^ 1024 \<longrightarrow>
      (\<exists>m. calculateMinOutput E (Finite S) = Inr m \<and> m < 0)) \<and>
   (10000 \<le> E \<and> 10001 / 100 \<le> S \<and> round64 (S * 100) < 2 ^ 1024 \<longrightarrow>
      (\<exists>m. calculateMinOutput E (Finite S) = Inr m \<and> m < 0)) \<and>
   (10000 \<le> E \<longrightarrow> (\<exists>m. calculateMinOutput E (Finite 101) = Inr m \<and> m < 0))"
proof -
  have neg: "\<exists>m. calculateMinOutput E (Finite S) = Inr m \<and> m < 0"
    if a: "10000 \<le> E" "10001 / 100 \<le> S" "round64 (S * 100) < 2 ^ 1024" for S
  proof -
    have S0: "0 \<le> S" using a(2) by simp
    have x: "of_int 10001 \<le> S * 100" using a(2) by simp
    then have xpos: "0 < S * 100" by simp
    have "of_int 10001 \<le> round64 (S * 100)"
      using xpos x by (rule round64_ge_int) simp
    then have "10001 \<le> round64 (S * 100)" by simp
    with a(1) S0 show ?thesis using a(3) by (rule calculateMinOutput_above_10000_bps)
  qed
  have r101: "round64 (101 * 100) < 2 ^ 1024"
  proof -
    have "round64 (101 * 100) \<le> of_int 10100" by (intro round64_le_int) simp_all
    moreover have "(of_int 10100 :: rat) < 2 ^ 53" by simp
    ultimately have "round64 (101 * 100) < 2 ^ 53" by linarith
    with two_53_less_1024 show ?thesis by linarith
  qed
  show ?thesis
  proof (intro conjI impI)
    assume a: "0 \<le> E \<and> 0 \<le> S \<and> S \<le> 100"
    from a have E0: "0 \<le> E" and S0: "0 \<le> S" and S100: "S \<le> 100" by blast+
    from S0 S100 have "round64 (S * 100) < 2 ^ 1024" by (rule round64_percent_below)
    with E0 S0 have f: "calculateMinOutput E (Finite S) = Inr (E - (E * \<lfloor>round64 (S * 100)\<rfloor>) div 10000)"
      by (rule calculateMinOutput_nonneg_slippage)
    have "(E * \<lfloor>round64 (S * 100)\<rfloor>) div 10000 \<le> E"
      using E0 slippageBps_percent(2) [OF S0 S100] slippageBps_percent(3) [OF S0 S100]
      by (rule deduction_bounds)
    with f show "\<exists>m. calculateMinOutput E (Finite S) = Inr m \<and> 0 \<le> m" by simp
  next
    have "round64 (100 * 100) \<le> of_int 10000" by (intro round64_le_int) simp_all
    then have "round64 (100 * 100) < 10001" by simp
    then show "calculateMinOutput E (Finite 100) = Inr 0"
      by (intro calculateMinOutput_10000_bps) simp_all
  next
    assume "100 \<le> S \<and> round64 (S * 100) < 10001"
    then have "100 \<le> S" and "round64 (S * 100) < 10001" by blast+
    then show "calculateMinOutput E (Finite S) = Inr 0" by (rule calculateMinOutput_10000_bps)
  next
    assume "10000 \<le> E \<and> 100 \<le> S \<and> 10001 \<le> round64 (S * 100) \<and> round64 (S * 100) < 2 ^ 1024"
    then have "10000 \<le> E" and S: "100 \<le> S" and "10001 \<le> round64 (S * 100)"
      and "round64 (S * 100) < 2 ^ 1024" by blast+
    moreover from S have "0 \<le> S" by simp
    ultimately show "\<exists>m. calculateMinOutput E (Finite S) = Inr m \<and> m < 0"
      by (intro calculateMinOutput_above_10000_bps)
  next
    assume a: "10000 \<le> E \<and> 10001 / 100 \<le> S \<and> round64 (S * 100) < 2 ^ 1024"
    from a have "10000 \<le> E" and "10001 / 100 \<le> S" and "round64 (S * 100) < 2 ^ 1024" by blast+
    then show "\<exists>m. calculateMinOutput E (Finite S) = Inr m \<and> m < 0" by (rule neg)
  next
    assume E: "10000 \<le> E"
    have "(10001 / 100 :: rat) \<le> 101" by simp
    with E show "\<exists>m. calculateMinOutput E (Finite 101) = Inr m \<and> m < 0"
      using r101 by (rule neg)
  qed
qed

lemma round64_int:
  assumes "0 \<le> N" "N < 2 ^ 53"
  shows "round64 (of_int N) = of_int N"
proof (cases "N = 0")
  case True
  then show ?thesis by (simp add: round64_def)
next
  case False
  with assms have pos: "(0::rat) < of_int N" by simp
  have "round64 (of_int N) \<le> of_int N"
    using assms by (intro round64_le_int) simp_all
  moreover have "of_int N \<le> round64 (of_int N)"
    using pos assms(2) by (intro round64_ge_int) simp_all
  ultimately show ?thesis by simp
qed

lemma two_powi_le_cancel: "(2::rat) powi a \<le> 2 powi b \<Longrightarrow> a \<le> b"
proof (rule ccontr)
  assume le: "(2::rat) powi a \<le> 2 powi b" and "\<not> a \<le> b"
  then have "b < a" by simp
  then have "(2::rat) powi b < 2 powi a" by (rule power_int_strict_increasing) simp
  with le show False by simp
qed

lemma ilog2_unique:
  assumes "0 < x" "2 powi e \<le> x" "x < 2 powi (e + 1)"
  shows "ilog2 x = e"
proof -
  from ilog2_bounds [OF assms(1)]
  have lo: "2 powi (ilog2 x) \<le> x" and hi: "x < 2 powi (ilog2 x + 1)" by simp_all
  from lo assms(3) have "(2::rat) powi (ilog2 x) < 2 powi (e + 1)" by simp
  then have a: "ilog2 x < e + 1" by (rule two_powi_less_cancel)
  from assms(2) hi have "(2::rat) powi e < 2 powi (ilog2 x + 1)" by simp
  then have b: "e < ilog2 x + 1" by (rule two_powi_less_cancel)
  from a b show ?thesis by simp
qed

lemma roundHalfEven_nearest:
  assumes "\<bar>y - of_int n\<bar> < 1 / 2"
  shows "roundHalfEven y = n"
proof -
  have "\<bar>of_int (roundHalfEven y) - y\<bar> \<le> 1 / 2" by (rule roundHalfEven_error)
  with assms have "\<bar>(of_int (roundHalfEven y) :: rat) - of_int n\<bar> < 1" by linarith
  then have "\<bar>(of_int (roundHalfEven y - n) :: rat)\<bar> < of_int 1" by simp
  then have "\<bar>roundHalfEven y - n\<bar> < 1"
    by (simp only: of_int_abs [symmetric] of_int_less_iff)
  then show ?thesis by simp
qed

text \<open>Evaluating round64 at a positive value from its exponent and its rounded significand.\<close>

lemma round64_eval:
  assumes "0 < x" "2 powi e \<le> x" "x < 2 powi (e + 1)" "- 1022 \<le> e"
    and "\<bar>x / 2 powi (e - 52) - of_int n\<bar> < 1 / 2"
  shows "round64 x = of_int n * 2 powi (e - 52)"
proof -
  have e: "ilog2 x = e" using assms(1-3) by (rule ilog2_unique)
  have u: "ulpOf x = 2 powi (e - 52)"
    using assms(1,4) by (simp add: ulpOf_def e)
  have "roundHalfEven (x / ulpOf x) = n"
    unfolding u using assms(5) by (rule roundHalfEven_nearest)
  then show ?thesis using assms(1) u by (simp add: round64_def)
qed

lemma round64_29_hundredths: "round64 (29 / 100) = 5224175567749775 / 2 ^ 54"
  using round64_eval [of "29 / 100" "- 2" 5224175567749775] by simp

lemma round64_29_product: "round64 (5224175567749775 / 2 ^ 54 * 100) = 29 - 1 / 2 ^ 48"
  using round64_eval [of "5224175567749775 / 2 ^ 54 * 100" 4 8162774324609023] by simp

lemma product_29_hundredths:
  "jsMul (Finite (round64 (29 / 100))) (Finite 100) = Finite (29 - 1 / 2 ^ 48)"
proof -
  have t: "toNumber (5224175567749775 / 2 ^ 54 * 100) =
      Finite (round64 (5224175567749775 / 2 ^ 54 * 100))"
    by (rule toNumber_Finite [of _ 29]) simp_all
  show ?thesis
    unfolding round64_29_hundredths by (simp only: jsMul.simps t round64_29_product)
qed

text \<open>
  Claim C2 does not hold of calculateMinOutput. The tolerance 0.29 is the binary64 value
  \<open>round64 (29 / 100)\<close>, and its binary64 product with 100 is \<open>29 - 2^-48\<close>
  (28.999999999999996), not 29. \<^verbatim>\<open>Math.floor\<close> takes 28 basis points from it, and for
  \<open>E = 10000\<close> the code returns 9972. The formula of the specification,
  \<open>E - floor(E * round(S*100) / 10000)\<close>, gives 9971, for the binary64 value and for 0.29
  itself.
\<close>

theorem calculateMinOutput_loses_basis_point:
  "jsMul (Finite (round64 (29 / 100))) (Finite 100) = Finite (29 - 1 / 2 ^ 48) \<and>
   calculateMinOutput 10000 (Finite (round64 (29 / 100))) = Inr 9972 \<and>
   minOut_spec 10000 (round64 (29 / 100)) = 9971 \<and>
   minOut_spec 10000 (29 / 100) = 9971"
proof (intro conjI)
  show "jsMul (Finite (round64 (29 / 100))) (Finite 100) = Finite (29 - 1 / 2 ^ 48)"
    by (rule product_29_hundredths)
next
  have "\<lfloor>of_int 8162774324609023 / of_int 281474976710656 :: rat\<rfloor> =
      8162774324609023 div 281474976710656"
    by (rule floor_divide_of_int_eq)
  then have f: "\<lfloor>8162774324609023 / 281474976710656 :: rat\<rfloor> = 28" by simp
  have g: "(280000 :: int) sdiv 10000 = 28"
    by (simp add: signed_divide_int_def)
  show "calculateMinOutput 10000 (Finite (round64 (29 / 100))) = Inr 9972"
    unfolding calculateMinOutput_def product_29_hundredths by (simp add: f g)
next
  have "round (5224175567749775 / 2 ^ 54 * 100 :: rat) = 29"
    unfolding round_def by (rule floor_unique) simp_all
  then show "minOut_spec 10000 (round64 (29 / 100)) = 9971"
    unfolding minOut_spec_def round64_29_hundredths by simp
next
  have "round (29 / 100 * 100 :: rat) = 29"
    unfolding round_def by (rule floor_unique) simp_all
  then show "minOut_spec 10000 (29 / 100) = 9971"
    unfolding minOut_spec_def by simp
qed

lemma round64_75_4: "round64 (75 / 4) = 75 / 4"
  using round64_eval [of "75 / 4" 4 "75 * 2 ^ 46"] by simp

text \<open>
  Where the product is exact the floor still differs from rounding to the nearest basis
  point: at \<open>E = 10000\<close>, \<open>S = 0.1875\<close> (a binary64 value, and so is \<open>S * 100 = 18.75\<close>) the
  code takes 18 basis points and returns 9982, the formula with \<open>round\<close> takes 19 and
  gives 9981.
\<close>

lemma calculateMinOutput_exact_product_floor:
  "calculateMinOutput 10000 (Finite (3 / 16)) = Inr 9982 \<and> minOut_spec 10000 (3 / 16) = 9981"
proof -
  have r: "round64 (3 / 16 * 100) = 75 / 4"
    using round64_75_4 by simp
  have "round64 (3 / 16 * 100) \<le> 2 ^ 53" unfolding r by simp
  with two_53_less_1024 have b: "round64 (3 / 16 * 100) < 2 ^ 1024" by linarith
  have "calculateMinOutput 10000 (Finite (3 / 16)) =
      Inr (10000 - (10000 * \<lfloor>round64 (3 / 16 * 100)\<rfloor>) div 10000)"
    using b by (intro calculateMinOutput_nonneg_slippage) simp_all
  moreover have "\<lfloor>of_int 75 / of_int 4 :: rat\<rfloor> = 75 div 4" by (rule floor_divide_of_int_eq)
  ultimately have a: "calculateMinOutput 10000 (Finite (3 / 16)) = Inr 9982"
    unfolding r by simp
  have c: "minOut_spec 10000 (3 / 16) = 9981"
  proof -
    have "\<lfloor>of_int 77 / of_int 4 :: rat\<rfloor> = 77 div 4" by (rule floor_divide_of_int_eq)
    then have "round (3 / 16 * 100 :: rat) = 19" by (simp add: round_def)
    moreover have "\<lfloor>of_int 19 / of_int 1 :: rat\<rfloor> = 19 div 1" by (rule floor_divide_of_int_eq)
    ultimately show ?thesis by (simp add: minOut_spec_def)
  qed
  from a c show ?thesis by simp
qed

lemma round64_640025_64: "round64 (640025 / 64) = 640025 / 64"
  using round64_eval [of "640025 / 64" 13 "640025 * 2 ^ 33"] by simp

lemma roundHalfEven_half_odd:
  assumes "odd k"
  shows "roundHalfEven (of_int (2 * k + 1) / 2) = k + 1"
proof -
  have "\<lfloor>of_int (2 * k + 1) / of_int 2 :: rat\<rfloor> = (2 * k + 1) div 2"
    by (rule floor_divide_of_int_eq)
  then have f: "\<lfloor>of_int (2 * k + 1) / 2 :: rat\<rfloor> = k" by simp
  have d: "(of_int (2 * k + 1) / 2 :: rat) - of_int k = 1 / 2" by (simp add: field_simps)
  show ?thesis
    unfolding roundHalfEven_def Let_def f d using assms by simp
qed

text \<open>
  The binary64 value just below 100.01: its product with 100 lies halfway between two
  binary64 values and is rounded to the even one, 10001.
\<close>

lemma round64_below_10001: "round64 (439848631575511 / 4398046511104 * 100) = 10001"
proof -
  let ?x = "439848631575511 / 4398046511104 * 100 :: rat"
  have e: "ilog2 ?x = 13" by (rule ilog2_unique) simp_all
  have u: "ulpOf ?x = 2 powi (- 39)"
    unfolding ulpOf_def by (simp only: abs_of_nonneg [of ?x] e) simp
  have q: "?x / 2 powi (- 39) = of_int (2 * 5498107894693887 + 1) / 2"
    by (simp add: power_int_minus)
  have "roundHalfEven (?x / ulpOf ?x) = 5498107894693887 + 1"
    unfolding u q by (rule roundHalfEven_half_odd) simp
  then show ?thesis
    unfolding round64_def u by (simp add: power_int_minus)
qed

text \<open>
  The results at 5, 100 and 101 percent, at 100.00390625 percent, and at the binary64
  value just below 100.01 percent, where the product is rounded up to 10001.
\<close>

theorem calculateMinOutput_range_witness:
  "calculateMinOutput 1000 (Finite 5) = Inr 950 \<and> (0::int) \<le> 950 \<and>
   calculateMinOutput 1000 (Finite 100) = Inr 0 \<and>
   calculateMinOutput 1000 (Finite (25601 / 256)) = Inr 0 \<and>
   calculateMinOutput 10000 (Finite (439848631575511 / 4398046511104)) = Inr (- 1) \<and>
   (\<exists>m. calculateMinOutput 10000 (Finite (439848631575511 / 4398046511104)) = Inr m \<and> m < 0) \<and>
   calculateMinOutput 10000 (Finite 101) = Inr (- 100) \<and>
   (\<exists>m. calculateMinOutput 10000 (Finite 101) = Inr m \<and> m < 0)"
proof -
  have r5: "round64 (5 * 100) = 500" using round64_int [of 500] by simp
  have r101: "round64 (101 * 100) = 10100" using round64_int [of 10100] by simp
  have b5: "round64 (5 * 100) < 2 ^ 1024" using round64_percent_below [of 5] by simp
  have a: "calculateMinOutput 1000 (Finite 5) = Inr 950"
    using calculateMinOutput_nonneg_slippage [of 1000 5, OF _ _ b5] unfolding r5 by simp
  have h: "(0::int) \<le> 1000 \<and> (0::rat) \<le> 5 \<and> (5::rat) \<le> 100" by simp
  from calculateMinOutput_range [of 1000 5] h a
  have nonneg: "(0::int) \<le> 950" by auto
  from calculateMinOutput_range [of 1000 5]
  have b: "calculateMinOutput 1000 (Finite 100) = Inr 0" by blast
  have "round64 (25601 / 256 * 100) = 640025 / 64"
    using round64_640025_64 by simp
  then have h3: "(100::rat) \<le> 25601 / 256 \<and> round64 (25601 / 256 * 100) < 10001" by simp
  from calculateMinOutput_range [of 1000 "25601 / 256"] h3
  have c: "calculateMinOutput 1000 (Finite (25601 / 256)) = Inr 0" by blast
  let ?S = "439848631575511 / 4398046511104 :: rat"
  have "round64 (?S * 100) \<le> 2 ^ 53" unfolding round64_below_10001 by simp
  with two_53_less_1024 have bS: "round64 (?S * 100) < 2 ^ 1024" by linarith
  have p0: "(10000::int) \<le> 10000" by simp
  have p1: "100 \<le> ?S" by simp
  have p2: "10001 \<le> round64 (?S * 100)" unfolding round64_below_10001 by simp
  from p0 p1 p2 bS
  have h4: "(10000::int) \<le> 10000 \<and> 100 \<le> ?S \<and> 10001 \<le> round64 (?S * 100) \<and>
      round64 (?S * 100) < 2 ^ 1024"
    by (intro conjI)
  from calculateMinOutput_range [of 10000 ?S] h4
  have d: "\<exists>m. calculateMinOutput 10000 (Finite ?S) = Inr m \<and> m < 0" by blast
  have d': "calculateMinOutput 10000 (Finite ?S) = Inr (- 1)"
    using calculateMinOutput_nonneg_slippage [of 10000 ?S, OF _ _ bS]
    unfolding round64_below_10001 by simp
  have "round64 (101 * 100) \<le> 2 ^ 53" unfolding r101 by simp
  with two_53_less_1024 have b101: "round64 (101 * 100) < 2 ^ 1024" by linarith
  have e: "calculateMinOutput 10000 (Finite 101) = Inr (- 100)"
    using calculateMinOutput_nonneg_slippage [of 10000 101, OF _ _ b101] unfolding r101 by simp
  from calculateMinOutput_range [of 10000]
  have e': "\<exists>m. calculateMinOutput 10000 (Finite 101) = Inr m \<and> m < 0" by blast
  from a nonneg b c d d' e e' show ?thesis by (intro conjI)
qed

text \<open>
  Claim C10 as it was stated fails just above 100: at \<open>S = 100.00390625\<close> (a binary64
  value, and so is \<open>S * 100 = 10000.390625\<close>) the basis points are 10000 and the result
  is 0 for every \<open>E\<close>, never negative.
\<close>

theorem calculateMinOutput_just_above_100_counterexample:
  "(100::rat) < 25601 / 256 \<and> (\<forall>E. calculateMinOutput E (Finite (25601 / 256)) = Inr 0)"
proof -
  have t: "toNumber (640025 / 64) = Finite (round64 (640025 / 64))"
    by (rule toNumber_Finite [of _ 10001]) simp_all
  have m: "jsMul (Finite (25601 / 256)) (Finite 100) = Finite (640025 / 64)"
    using t round64_640025_64 by simp
  have f: "\<lfloor>of_int 640025 / of_int 64 :: rat\<rfloor> = 640025 div 64" by (rule floor_divide_of_int_eq)
  have "calculateMinOutput E (Finite (25601 / 256)) = Inr 0" for E
    unfolding calculateMinOutput_def m using f by (simp add: sdiv_mult_self)
  then show ?thesis by simp
qed

section \<open>USD to wei\<close>

lemma ulpOf_below_128:
  assumes "0 < x" "x < 1 / 128"
  shows "ulpOf x \<le> 1 / 2 ^ 60"
proof -
  from ilog2_bounds [OF assms(1)] have "2 powi (ilog2 x) \<le> x" by (rule conjunct1)
  then have "(2::rat) powi (ilog2 x) < 1 / 128" using assms(2) by (rule le_less_trans)
  moreover have p7: "(1 / 128 :: rat) = 2 powi (- 7)" by simp
  ultimately have "(2::rat) powi (ilog2 x) < 2 powi (- 7)" by (simp only:)
  then have "ilog2 x < - 7" by (rule two_powi_less_cancel)
  then have "max (ilog2 x) (- 1022) - 52 \<le> - 60" by linarith
  then have le: "(2::rat) powi (max (ilog2 x) (- 1022) - 52) \<le> 2 powi (- 60)"
    by (rule power_int_increasing) simp
  have ax: "\<bar>x\<bar> = x" using assms(1) by simp
  have "ulpOf x = 2 powi (max (ilog2 x) (- 1022) - 52)"
    unfolding ulpOf_def ax by (rule refl)
  also note le
  also have "(2::rat) powi (- 60) = 1 / 2 ^ 60" by simp
  finally show ?thesis .
qed

lemma wethAmountWei_finite:
  assumes "0 \<le> a" "0 < p" "a / p < 1 / 128"
  shows "wethAmountWei (Finite a) (Finite p) = Inr \<lfloor>round64 (a / p) * 10 ^ 18 + 1 / 2\<rfloor>"
    and "\<bar>of_int \<lfloor>round64 (a / p) * 10 ^ 18 + 1 / 2\<rfloor> - a / p * 10 ^ 18\<bar> < 1"
proof -
  define x where "x = a / p"
  have x0: "0 \<le> x" using assms by (simp add: x_def)
  have xl: "x < 1 / 128" unfolding x_def by (rule assms(3))
  have x1: "x \<le> of_int 1" using xl by simp
  have t: "toNumber x = Finite (round64 x)"
    using x0 x1 by (rule toNumber_Finite) simp
  have r0: "0 \<le> round64 x" using x0 by (rule round64_nonneg)
  have r1: "round64 x \<le> of_int 1" using x0 x1 by (rule round64_le_int) simp
  have d: "jsDiv (Finite a) (Finite p) = Finite (round64 x)"
    using assms(2) t by (simp add: x_def)
  have small: "\<not> 10 ^ 21 \<le> \<bar>round64 x\<bar>" using r0 r1 by simp
  show "wethAmountWei (Finite a) (Finite p) = Inr \<lfloor>round64 (a / p) * 10 ^ 18 + 1 / 2\<rfloor>"
    using d small r0 by (simp add: wethAmountWei_def wethAmount_def x_def)
  define n where "n = \<lfloor>round64 x * 10 ^ 18 + 1 / 2\<rfloor>"
  have n1: "of_int n \<le> round64 x * 10 ^ 18 + 1 / 2" unfolding n_def by (rule of_int_floor_le)
  have n2: "round64 x * 10 ^ 18 + 1 / 2 < of_int n + 1" unfolding n_def by linarith
  have err: "\<bar>round64 x - x\<bar> \<le> 1 / 2 ^ 61"
  proof (cases "x = 0")
    case True
    then show ?thesis by (simp add: round64_def)
  next
    case False
    with x0 have xpos: "0 < x" by simp
    have "\<bar>round64 x - x\<bar> \<le> ulpOf x / 2" using False by (rule round64_error)
    moreover have "ulpOf x \<le> 1 / 2 ^ 60"
      using xpos xl by (rule ulpOf_below_128)
    ultimately show ?thesis by simp
  qed
  then have "\<bar>round64 x - x\<bar> * 10 ^ 18 \<le> 1 / 2 ^ 61 * (10 ^ 18 :: rat)"
    by (rule mult_right_mono) simp
  moreover have "(1 / 2 ^ 61 * 10 ^ 18 :: rat) < 1 / 2" by simp
  ultimately have e2: "\<bar>round64 x - x\<bar> * 10 ^ 18 < 1 / 2" by linarith
  have "round64 x * 10 ^ 18 - x * 10 ^ 18 = (round64 x - x) * 10 ^ 18"
    by (simp only: left_diff_distrib)
  then have "\<bar>round64 x * 10 ^ 18 - x * 10 ^ 18\<bar> = \<bar>round64 x - x\<bar> * \<bar>10 ^ 18\<bar>"
    by (simp only: abs_mult)
  also have "\<bar>10 ^ 18 :: rat\<bar> = 10 ^ 18" by simp
  finally have e3: "\<bar>round64 x * 10 ^ 18 - x * 10 ^ 18\<bar> < 1 / 2" using e2 by simp
  from n1 n2 e3 have "\<bar>of_int n - x * 10 ^ 18\<bar> < 1" by linarith
  then show "\<bar>of_int \<lfloor>round64 (a / p) * 10 ^ 18 + 1 / 2\<rfloor> - a / p * 10 ^ 18\<bar> < 1"
    by (simp add: n_def x_def)
qed

lemma round64_2_thousandths: "round64 (5 / 2500) = 1152921504606847 / 2 ^ 59"
  using round64_eval [of "5 / 2500" "- 9" 4611686018427388] by simp

lemma round64_10_thirds: "round64 (10000 / 3000) = 7505999378950827 / 2 ^ 51"
  using round64_eval [of "10000 / 3000" 1 7505999378950827] by simp

lemma wei_2_thousandths: "\<lfloor>round64 (5 / 2500) * 10 ^ 18 + 1 / 2\<rfloor> = 2000000000000000"
  unfolding round64_2_thousandths by (rule floor_unique) simp_all

lemma wei_10_thirds: "\<lfloor>round64 (10000 / 3000) * 10 ^ 18 + 1 / 2\<rfloor> = 3333333333333333481"
  unfolding round64_10_thirds by (rule floor_unique) simp_all

text \<open>
  Claim C7, as amended. The wei amount of a BUY is the binary64 quotient
  \<open>amountUsd / ethPriceUsd\<close> rounded to 18 decimals (\<^verbatim>\<open>toFixed(18)\<close>, then
  \<^verbatim>\<open>parseEther\<close>). For \<open>amountUsd \<ge> 0\<close> and \<open>ethPriceUsd > 0\<close> with a quotient below
  \<open>1/128\<close> of a base unit (every buy of at most 10 USD at a price of at least 1280 USD),
  it differs from the exact quotient by less than one wei. 5 USD at 2500 USD gives exactly
  \<open>2 * 10^15\<close> wei.
\<close>

theorem wethAmountWei_precision:
  "(0 \<le> a \<and> 0 < p \<and> a / p < 1 / 128 \<longrightarrow>
      wethAmountWei (Finite a) (Finite p) = Inr \<lfloor>round64 (a / p) * 10 ^ 18 + 1 / 2\<rfloor> \<and>
      \<bar>of_int \<lfloor>round64 (a / p) * 10 ^ 18 + 1 / 2\<rfloor> - a / p * 10 ^ 18\<bar> < 1) \<and>
   wethAmountWei (Finite 5) (Finite 2500) = Inr 2000000000000000"
proof (intro conjI impI)
  assume h: "0 \<le> a \<and> 0 < p \<and> a / p < 1 / 128"
  from h have a: "0 \<le> a" and p: "0 < p" and q: "a / p < 1 / 128" by blast+
  from a p q show "wethAmountWei (Finite a) (Finite p) = Inr \<lfloor>round64 (a / p) * 10 ^ 18 + 1 / 2\<rfloor>"
    by (rule wethAmountWei_finite(1))
  from a p q show "\<bar>of_int \<lfloor>round64 (a / p) * 10 ^ 18 + 1 / 2\<rfloor> - a / p * 10 ^ 18\<bar> < 1"
    by (rule wethAmountWei_finite(2))
next
  have "wethAmountWei (Finite 5) (Finite 2500) = Inr \<lfloor>round64 (5 / 2500) * 10 ^ 18 + 1 / 2\<rfloor>"
    by (rule wethAmountWei_finite(1)) simp_all
  then show "wethAmountWei (Finite 5) (Finite 2500) = Inr 2000000000000000"
    unfolding wei_2_thousandths .
qed

text \<open>5 USD at 2500 USD.\<close>

theorem wethAmountWei_precision_witness:
  "wethAmountWei (Finite 5) (Finite 2500) = Inr 2000000000000000 \<and>
   \<bar>of_int 2000000000000000 - 5 / 2500 * 10 ^ 18 :: rat\<bar> < 1"
proof -
  have h: "(0::rat) \<le> 5 \<and> (0::rat) < 2500 \<and> (5::rat) / 2500 < 1 / 128" by simp
  from wethAmountWei_precision [of 5 2500] h
  have "wethAmountWei (Finite 5) (Finite 2500) = Inr \<lfloor>round64 (5 / 2500) * 10 ^ 18 + 1 / 2\<rfloor> \<and>
      \<bar>of_int \<lfloor>round64 (5 / 2500) * 10 ^ 18 + 1 / 2\<rfloor> - 5 / 2500 * 10 ^ 18 :: rat\<bar> < 1"
    by blast
  then show ?thesis unfolding wei_2_thousandths .
qed

text \<open>
  Claim C7 as it was stated fails for a larger quotient: 10000 USD at 3000 USD (the
  fallback price) gives 3333333333333333481 wei, 147 wei and more above the exact
  quotient, because the quotient is a binary64 value before it is written in decimal.
\<close>

theorem wethAmountWei_large_quotient_counterexample:
  "wethAmountWei (Finite 10000) (Finite 3000) = Inr 3333333333333333481 \<and>
   1 < \<bar>of_int 3333333333333333481 - 10000 / 3000 * 10 ^ 18 :: rat\<bar>"
proof -
  have t: "toNumber (10000 / 3000) = Finite (round64 (10000 / 3000))"
    by (rule toNumber_Finite [of _ 4]) simp_all
  have r0: "0 \<le> round64 (10000 / 3000)" by (rule round64_nonneg) simp
  have r1: "round64 (10000 / 3000) \<le> of_int 4" by (rule round64_le_int) simp_all
  have small: "\<not> 10 ^ 21 \<le> \<bar>round64 (10000 / 3000)\<bar>" using r0 r1 by simp
  have d: "jsDiv (Finite 10000) (Finite 3000) = Finite (round64 (10000 / 3000))"
    using t by simp
  have "wethAmountWei (Finite 10000) (Finite 3000) =
      Inr \<lfloor>round64 (10000 / 3000) * 10 ^ 18 + 1 / 2\<rfloor>"
    unfolding wethAmountWei_def wethAmount_def d using small r0 by simp
  then have a: "wethAmountWei (Finite 10000) (Finite 3000) = Inr 3333333333333333481"
    unfolding wei_10_thirds .
  have b: "1 < \<bar>of_int 3333333333333333481 - 10000 / 3000 * 10 ^ 18 :: rat\<bar>" by simp
  from a b show ?thesis by (rule conjI)
qed

section \<open>Retry\<close>

lemma retryLoop_returns:
  assumes "attempt \<le> MAX_RETRY_ATTEMPTS"
    and "fn (logged (LogAttempt operationName attempt MAX_RETRY_ATTEMPTS) s) = (Returns v, s')"
  shows "retryLoop fn operationName attempt lastError s = (Returns v, s')"
  using assms by (subst retryLoop.simps) simp

lemma retryLoop_never:
  assumes "attempt \<le> MAX_RETRY_ATTEMPTS"
    and "fn (logged (LogAttempt operationName attempt MAX_RETRY_ATTEMPTS) s) = (NeverSettles, s')"
  shows "retryLoop fn operationName attempt lastError s = (NeverSettles, s')"
  using assms by (subst retryLoop.simps) simp

lemma retryLoop_fatal:
  assumes "attempt \<le> MAX_RETRY_ATTEMPTS"
    and "fn (logged (LogAttempt operationName attempt MAX_RETRY_ATTEMPTS) s) = (Throws err, s')"
    and "isNonRetryableError err"
  shows "retryLoop fn operationName attempt lastError s =
           (Throws err, logged (LogNonRetryable operationName err) s')"
  using assms by (subst retryLoop.simps) simp

lemma retryLoop_retry:
  assumes "attempt < MAX_RETRY_ATTEMPTS"
    and "fn (logged (LogAttempt operationName attempt MAX_RETRY_ATTEMPTS) s) = (Throws err, s')"
    and "\<not> isNonRetryableError err"
  shows "retryLoop fn operationName attempt lastError s =
           retryLoop fn operationName (attempt + 1) (Some err)
             (logged (Sleep (retryDelay attempt))
                (logged (LogRetrying operationName attempt (retryDelay attempt) (message err)) s'))"
  using assms by (subst retryLoop.simps) simp

lemma retryLoop_last:
  assumes "attempt = MAX_RETRY_ATTEMPTS"
    and "fn (logged (LogAttempt operationName attempt MAX_RETRY_ATTEMPTS) s) = (Throws err, s')"
    and "\<not> isNonRetryableError err"
  shows "retryLoop fn operationName attempt lastError s =
           retryLoop fn operationName (attempt + 1) (Some err) s'"
  using assms by (subst retryLoop.simps) simp

lemma retryLoop_exhausted:
  assumes "MAX_RETRY_ATTEMPTS < attempt"
  shows "retryLoop fn operationName attempt lastError s =
           (Throws (BlockchainError
                      (operationName @ '' failed after '' @ showNat MAX_RETRY_ATTEMPTS @ '' attempts'')
                      TX_FAILED
                      [(''lastError'',
                        case lastError of None \<Rightarrow> DUndefined | Some err \<Rightarrow> messageDetail err)]),
            s)"
  using assms by (subst retryLoop.simps) simp

lemma showNat_3: "showNat MAX_RETRY_ATTEMPTS = ''3''"
  by (simp add: MAX_RETRY_ATTEMPTS_def showNat.simps digitChar_def)

lemma retryDelay_1: "retryDelay 1 = 2000"
  by (simp add: retryDelay_def RETRY_BASE_DELAY_MS_def)

lemma retryDelay_2: "retryDelay 2 = 4000"
  by (simp add: retryDelay_def RETRY_BASE_DELAY_MS_def RETRY_BACKOFF_MULTIPLIER_def)

lemma call_Inl: "op w = (Inl e, w') \<Longrightarrow> call op \<lparr>world = w, events = evs\<rparr> = (Throws e, \<lparr>world = w', events = evs\<rparr>)"
  by (simp add: call_def)

lemma call_Inr: "op w = (Inr v, w') \<Longrightarrow> call op \<lparr>world = w, events = evs\<rparr> = (Returns v, \<lparr>world = w', events = evs\<rparr>)"
  by (simp add: call_def)

lemma logged_machine: "logged ev \<lparr>world = w, events = evs\<rparr> = \<lparr>world = w, events = evs @ [ev]\<rparr>"
  by (simp add: logged_def)

lemma attempt_throws:
  "op w = (Inl e, w') \<Longrightarrow>
   call op (logged (LogAttempt operationName k MAX_RETRY_ATTEMPTS) \<lparr>world = w, events = evs\<rparr>)
     = (Throws e, \<lparr>world = w', events = evs @ [LogAttempt operationName k 3]\<rparr>)"
  by (simp add: logged_machine call_Inl MAX_RETRY_ATTEMPTS_def)

lemma attempt_returns:
  "op w = (Inr v, w') \<Longrightarrow>
   call op (logged (LogAttempt operationName k MAX_RETRY_ATTEMPTS) \<lparr>world = w, events = evs\<rparr>)
     = (Returns v, \<lparr>world = w', events = evs @ [LogAttempt operationName k 3]\<rparr>)"
  by (simp add: logged_machine call_Inr MAX_RETRY_ATTEMPTS_def)

lemma two_plus_one: "(2::nat) + 1 = 3"
  by simp

lemma three_plus_one: "(3::nat) + 1 = 4"
  by simp

lemma one_less_max: "1 < MAX_RETRY_ATTEMPTS"
  by (simp add: MAX_RETRY_ATTEMPTS_def)

lemma two_less_max: "2 < MAX_RETRY_ATTEMPTS"
  by (simp add: MAX_RETRY_ATTEMPTS_def)

lemma three_eq_max: "3 = MAX_RETRY_ATTEMPTS"
  by (simp add: MAX_RETRY_ATTEMPTS_def)

lemma retry_twice:
  assumes r1: "op w0 = (Inl e1, w1)" and n1: "\<not> isNonRetryableError e1"
    and r2: "op w1 = (Inl e2, w2)" and n2: "\<not> isNonRetryableError e2"
  shows "executeWithRetry (call op) operationName \<lparr>world = w0, events = evs\<rparr> =
           retryLoop (call op) operationName 3 (Some e2)
             \<lparr>world = w2, events = evs @
                [LogAttempt operationName 1 3, LogRetrying operationName 1 2000 (message e1), Sleep 2000,
                 LogAttempt operationName 2 3, LogRetrying operationName 2 4000 (message e2), Sleep 4000]\<rparr>"
proof -
  have "retryLoop (call op) operationName 1 None \<lparr>world = w0, events = evs\<rparr> =
      retryLoop (call op) operationName (1 + 1) (Some e1)
        (logged (Sleep (retryDelay 1))
           (logged (LogRetrying operationName 1 (retryDelay 1) (message e1))
              \<lparr>world = w1, events = evs @ [LogAttempt operationName 1 3]\<rparr>))"
    by (rule retryLoop_retry [where fn = "call op", OF one_less_max attempt_throws [where op = op and w = w0, OF r1] n1])
  then have s1: "retryLoop (call op) operationName 1 None \<lparr>world = w0, events = evs\<rparr> =
      retryLoop (call op) operationName 2 (Some e1)
        \<lparr>world = w1, events = evs @
          [LogAttempt operationName 1 3, LogRetrying operationName 1 2000 (message e1), Sleep 2000]\<rparr>"
    by (simp only: one_add_one retryDelay_1 logged_machine append_assoc append_Cons append_Nil)
  have "retryLoop (call op) operationName 2 (Some e1)
        \<lparr>world = w1, events = evs @
          [LogAttempt operationName 1 3, LogRetrying operationName 1 2000 (message e1), Sleep 2000]\<rparr> =
      retryLoop (call op) operationName (2 + 1) (Some e2)
        (logged (Sleep (retryDelay 2))
           (logged (LogRetrying operationName 2 (retryDelay 2) (message e2))
              \<lparr>world = w2, events = (evs @
          [LogAttempt operationName 1 3, LogRetrying operationName 1 2000 (message e1), Sleep 2000])
                @ [LogAttempt operationName 2 3]\<rparr>))"
    by (rule retryLoop_retry [where fn = "call op", OF two_less_max attempt_throws [where op = op and w = w1, OF r2] n2])
  then have s2: "retryLoop (call op) operationName 2 (Some e1)
        \<lparr>world = w1, events = evs @
          [LogAttempt operationName 1 3, LogRetrying operationName 1 2000 (message e1), Sleep 2000]\<rparr> =
      retryLoop (call op) operationName 3 (Some e2)
        \<lparr>world = w2, events = evs @
          [LogAttempt operationName 1 3, LogRetrying operationName 1 2000 (message e1), Sleep 2000,
           LogAttempt operationName 2 3, LogRetrying operationName 2 4000 (message e2), Sleep 4000]\<rparr>"
    by (simp only: two_plus_one retryDelay_2 logged_machine append_assoc append_Cons append_Nil)
  show ?thesis unfolding executeWithRetry_def s1 s2 ..
qed

text \<open>
  Claim C4. An operation that fails twice with a retryable error and then succeeds: the
  wrapper returns the success after exactly three attempts and exactly two sleeps, of
  2000 ms and then 4000 ms. An operation that fails retryably on all three attempts: the
  wrapper throws the aggregate error, with code TX_FAILED and the last error's message,
  after the same two sleeps and none after the third attempt. The delay after attempt
  \<open>n\<close> is \<open>RETRY_BASE_DELAY_MS * RETRY_BACKOFF_MULTIPLIER ^ (n - 1)\<close>. The operation is any
  function of the world, \<open>w0\<close> to \<open>w3\<close> being the worlds before and after its calls.
\<close>

theorem executeWithRetry_backoff:
  "(op w0 = (Inl e1, w1) \<and> \<not> isNonRetryableError e1 \<and>
    op w1 = (Inl e2, w2) \<and> \<not> isNonRetryableError e2 \<and>
    op w2 = (Inr v, w3) \<longrightarrow>
      executeWithRetry (call op) operationName \<lparr>world = w0, events = evs\<rparr> =
        (Returns v,
         \<lparr>world = w3, events = evs @
            [LogAttempt operationName 1 3, LogRetrying operationName 1 2000 (message e1), Sleep 2000,
             LogAttempt operationName 2 3, LogRetrying operationName 2 4000 (message e2), Sleep 4000,
             LogAttempt operationName 3 3]\<rparr>)) \<and>
   (op w0 = (Inl e1, w1) \<and> \<not> isNonRetryableError e1 \<and>
    op w1 = (Inl e2, w2) \<and> \<not> isNonRetryableError e2 \<and>
    op w2 = (Inl e3, w3) \<and> \<not> isNonRetryableError e3 \<longrightarrow>
      executeWithRetry (call op) operationName \<lparr>world = w0, events = evs\<rparr> =
        (Throws (BlockchainError (operationName @ '' failed after 3 attempts'') TX_FAILED
                   [(''lastError'', messageDetail e3)]),
         \<lparr>world = w3, events = evs @
            [LogAttempt operationName 1 3, LogRetrying operationName 1 2000 (message e1), Sleep 2000,
             LogAttempt operationName 2 3, LogRetrying operationName 2 4000 (message e2), Sleep 4000,
             LogAttempt operationName 3 3]\<rparr>)) \<and>
   retryDelay 1 = RETRY_BASE_DELAY_MS \<and>
   retryDelay 2 = RETRY_BASE_DELAY_MS * RETRY_BACKOFF_MULTIPLIER"
proof (intro conjI impI)
  assume h: "op w0 = (Inl e1, w1) \<and> \<not> isNonRetryableError e1 \<and>
    op w1 = (Inl e2, w2) \<and> \<not> isNonRetryableError e2 \<and> op w2 = (Inr v, w3)"
  from h have r1: "op w0 = (Inl e1, w1)" and n1: "\<not> isNonRetryableError e1"
    and r2: "op w1 = (Inl e2, w2)" and n2: "\<not> isNonRetryableError e2"
    and r3: "op w2 = (Inr v, w3)" by blast+
  let ?evs = "evs @
      [LogAttempt operationName 1 3, LogRetrying operationName 1 2000 (message e1), Sleep 2000,
       LogAttempt operationName 2 3, LogRetrying operationName 2 4000 (message e2), Sleep 4000]"
  have "retryLoop (call op) operationName 3 (Some e2) \<lparr>world = w2, events = ?evs\<rparr>
      = (Returns v, \<lparr>world = w3, events = ?evs @ [LogAttempt operationName 3 3]\<rparr>)"
    by (rule retryLoop_returns [where fn = "call op", OF _ attempt_returns [where op = op and w = w2, OF r3]])
       (simp add: MAX_RETRY_ATTEMPTS_def)
  then show "executeWithRetry (call op) operationName \<lparr>world = w0, events = evs\<rparr> =
        (Returns v,
         \<lparr>world = w3, events = evs @
            [LogAttempt operationName 1 3, LogRetrying operationName 1 2000 (message e1), Sleep 2000,
             LogAttempt operationName 2 3, LogRetrying operationName 2 4000 (message e2), Sleep 4000,
             LogAttempt operationName 3 3]\<rparr>)"
    unfolding retry_twice [OF r1 n1 r2 n2] by simp
next
  assume h: "op w0 = (Inl e1, w1) \<and> \<not> isNonRetryableError e1 \<and>
    op w1 = (Inl e2, w2) \<and> \<not> isNonRetryableError e2 \<and>
    op w2 = (Inl e3, w3) \<and> \<not> isNonRetryableError e3"
  from h have r1: "op w0 = (Inl e1, w1)" and n1: "\<not> isNonRetryableError e1"
    and r2: "op w1 = (Inl e2, w2)" and n2: "\<not> isNonRetryableError e2"
    and r3: "op w2 = (Inl e3, w3)" and n3: "\<not> isNonRetryableError e3" by blast+
  let ?evs = "evs @
      [LogAttempt operationName 1 3, LogRetrying operationName 1 2000 (message e1), Sleep 2000,
       LogAttempt operationName 2 3, LogRetrying operationName 2 4000 (message e2), Sleep 4000]"
  let ?s3 = "\<lparr>world = w3, events = ?evs @ [LogAttempt operationName 3 3]\<rparr>"
  have "retryLoop (call op) operationName 3 (Some e2) \<lparr>world = w2, events = ?evs\<rparr>
      = retryLoop (call op) operationName (3 + 1) (Some e3) ?s3"
    by (rule retryLoop_last [where fn = "call op", OF three_eq_max attempt_throws [where op = op and w = w2, OF r3] n3])
  also have "\<dots> = (Throws (BlockchainError
                      (operationName @ '' failed after '' @ showNat MAX_RETRY_ATTEMPTS @ '' attempts'')
                      TX_FAILED
                      [(''lastError'',
                        case Some e3 of None \<Rightarrow> DUndefined | Some err \<Rightarrow> messageDetail err)]),
            ?s3)"
    by (rule retryLoop_exhausted) (simp add: MAX_RETRY_ATTEMPTS_def)
  finally show "executeWithRetry (call op) operationName \<lparr>world = w0, events = evs\<rparr> =
        (Throws (BlockchainError (operationName @ '' failed after 3 attempts'') TX_FAILED
                   [(''lastError'', messageDetail e3)]),
         \<lparr>world = w3, events = evs @
            [LogAttempt operationName 1 3, LogRetrying operationName 1 2000 (message e1), Sleep 2000,
             LogAttempt operationName 2 3, LogRetrying operationName 2 4000 (message e2), Sleep 4000,
             LogAttempt operationName 3 3]\<rparr>)"
    unfolding retry_twice [OF r1 n1 r2 n2] by (simp add: showNat_3)
next
  show "retryDelay 1 = RETRY_BASE_DELAY_MS" by (simp add: retryDelay_def)
  show "retryDelay 2 = RETRY_BASE_DELAY_MS * RETRY_BACKOFF_MULTIPLIER" by (simp add: retryDelay_def)
qed

text \<open>
  Claim C5. An operation whose first call throws an error that matches one of the six
  fatal substrings (so every operation that always throws such an error): the wrapper
  calls it once and throws that same error, with one attempt logged, no retry and no
  sleep.
\<close>

theorem executeWithRetry_fatal_once:
  "op w0 = (Inl e, w1) \<and> isNonRetryableError e \<longrightarrow>
     executeWithRetry (call op) operationName \<lparr>world = w0, events = evs\<rparr> =
       (Throws e,
        \<lparr>world = w1, events = evs @
           [LogAttempt operationName 1 3, LogNonRetryable operationName e]\<rparr>)"
proof
  assume h: "op w0 = (Inl e, w1) \<and> isNonRetryableError e"
  then have r: "op w0 = (Inl e, w1)" and f: "isNonRetryableError e" by blast+
  have "retryLoop (call op) operationName 1 None \<lparr>world = w0, events = evs\<rparr> =
      (Throws e, logged (LogNonRetryable operationName e)
         \<lparr>world = w1, events = evs @ [LogAttempt operationName 1 3]\<rparr>)"
    by (rule retryLoop_fatal [where fn = "call op", OF _ attempt_throws [where op = op and w = w0, OF r] f])
       (simp add: MAX_RETRY_ATTEMPTS_def)
  then show "executeWithRetry (call op) operationName \<lparr>world = w0, events = evs\<rparr> =
       (Throws e,
        \<lparr>world = w1, events = evs @
           [LogAttempt operationName 1 3, LogNonRetryable operationName e]\<rparr>)"
    by (simp add: executeWithRetry_def logged_machine)
qed

lemma timeout_retryable: "\<not> isNonRetryableError (Error (Some ''request timeout''))"
  by (simp add: isNonRetryableError_def nonRetryableMessages_def toLowerCase_def lowerChar_def)

lemma revert_fatal: "isNonRetryableError (Error (Some ''Execution Reverted: STF''))"
  by (simp add: isNonRetryableError_def nonRetryableMessages_def toLowerCase_def lowerChar_def)

text \<open>
  An operation that times out twice and then returns a transaction, and one that times
  out every time.
\<close>

theorem executeWithRetry_backoff_witness:
  "executeWithRetry (call (flakyOperation 2)) ''Sell swap'' \<lparr>world = 0, events = []\<rparr> =
     (Returns \<lparr>hash = ''0xswap''\<rparr>,
      \<lparr>world = 3, events =
         [LogAttempt ''Sell swap'' 1 3, LogRetrying ''Sell swap'' 1 2000 (Some ''request timeout''),
          Sleep 2000,
          LogAttempt ''Sell swap'' 2 3, LogRetrying ''Sell swap'' 2 4000 (Some ''request timeout''),
          Sleep 4000,
          LogAttempt ''Sell swap'' 3 3]\<rparr>) \<and>
   executeWithRetry (call (flakyOperation 5)) ''Sell swap'' \<lparr>world = 0, events = []\<rparr> =
     (Throws (BlockchainError ''Sell swap failed after 3 attempts'' TX_FAILED
                [(''lastError'', DString ''request timeout'')]),
      \<lparr>world = 3, events =
         [LogAttempt ''Sell swap'' 1 3, LogRetrying ''Sell swap'' 1 2000 (Some ''request timeout''),
          Sleep 2000,
          LogAttempt ''Sell swap'' 2 3, LogRetrying ''Sell swap'' 2 4000 (Some ''request timeout''),
          Sleep 4000,
          LogAttempt ''Sell swap'' 3 3]\<rparr>)"
proof -
  let ?e = "Error (Some ''request timeout'')"
  have a: "flakyOperation 2 0 = (Inl ?e, 1) \<and> \<not> isNonRetryableError ?e \<and>
      flakyOperation 2 1 = (Inl ?e, 2) \<and> \<not> isNonRetryableError ?e \<and>
      flakyOperation 2 2 = (Inr \<lparr>hash = ''0xswap''\<rparr>, 3)"
    using timeout_retryable by (simp add: flakyOperation_def)
  have b: "flakyOperation 5 0 = (Inl ?e, 1) \<and> \<not> isNonRetryableError ?e \<and>
      flakyOperation 5 1 = (Inl ?e, 2) \<and> \<not> isNonRetryableError ?e \<and>
      flakyOperation 5 2 = (Inl ?e, 3) \<and> \<not> isNonRetryableError ?e"
    using timeout_retryable by (simp add: flakyOperation_def)
  from executeWithRetry_backoff [of "flakyOperation 2" 0 ?e 1 ?e 2 "\<lparr>hash = ''0xswap''\<rparr>" 3
      "''Sell swap''" "[]"] a
  have 1: "executeWithRetry (call (flakyOperation 2)) ''Sell swap'' \<lparr>world = 0, events = []\<rparr> =
     (Returns \<lparr>hash = ''0xswap''\<rparr>,
      \<lparr>world = 3, events = [] @
         [LogAttempt ''Sell swap'' 1 3, LogRetrying ''Sell swap'' 1 2000 (message ?e), Sleep 2000,
          LogAttempt ''Sell swap'' 2 3, LogRetrying ''Sell swap'' 2 4000 (message ?e), Sleep 4000,
          LogAttempt ''Sell swap'' 3 3]\<rparr>)"
    by blast
  from executeWithRetry_backoff [of "flakyOperation 5" 0 ?e 1 ?e 2 _ 3 "''Sell swap''" "[]" ?e] b
  have 2: "executeWithRetry (call (flakyOperation 5)) ''Sell swap'' \<lparr>world = 0, events = []\<rparr> =
     (Throws (BlockchainError (''Sell swap'' @ '' failed after 3 attempts'') TX_FAILED
                [(''lastError'', messageDetail ?e)]),
      \<lparr>world = 3, events = [] @
         [LogAttempt ''Sell swap'' 1 3, LogRetrying ''Sell swap'' 1 2000 (message ?e), Sleep 2000,
          LogAttempt ''Sell swap'' 2 3, LogRetrying ''Sell swap'' 2 4000 (message ?e), Sleep 4000,
          LogAttempt ''Sell swap'' 3 3]\<rparr>)"
    by blast
  from 1 2 show ?thesis by (simp add: messageDetail_def)
qed

text \<open>An operation that always throws the revert error, in capitals as some nodes send it.\<close>

theorem executeWithRetry_fatal_once_witness:
  "executeWithRetry (call revertingOperation) ''Sell swap'' \<lparr>world = 0, events = []\<rparr> =
     (Throws (Error (Some ''Execution Reverted: STF'')),
      \<lparr>world = 1, events =
         [LogAttempt ''Sell swap'' 1 3,
          LogNonRetryable ''Sell swap'' (Error (Some ''Execution Reverted: STF''))]\<rparr>)"
proof -
  let ?e = "Error (Some ''Execution Reverted: STF'')"
  have a: "revertingOperation 0 = (Inl ?e, 1) \<and> isNonRetryableError ?e"
    using revert_fatal by (simp add: revertingOperation_def)
  from executeWithRetry_fatal_once [of revertingOperation 0 ?e 1 "''Sell swap''" "[]"] a
  show ?thesis by simp
qed

section \<open>Confirmation waits\<close>

lemma awaitRace_timeout_pending:
  "p (world s) = (Pending, w) \<Longrightarrow> awaitRace p limit e s = (Throws e, s\<lparr>world := w\<rparr>)"
  by (simp add: awaitRace_def)

lemma awaitRace_timeout_late:
  "p (world s) = (Settles ms r, w) \<Longrightarrow> limit < ms \<Longrightarrow>
   awaitRace p limit e s = (Throws e, s\<lparr>world := w\<rparr>)"
  by (simp add: awaitRace_def)

lemma awaitRace_settled:
  "p (world s) = (Settles ms (Inr v), w) \<Longrightarrow> ms \<le> limit \<Longrightarrow>
   awaitRace p limit e s = (Returns v, s\<lparr>world := w\<rparr>)"
  by (simp add: awaitRace_def fromResult_def returns_def)

lemma awaitRace_rejected:
  "p (world s) = (Settles ms (Inl err), w) \<Longrightarrow> ms \<le> limit \<Longrightarrow>
   awaitRace p limit e s = (Throws err, s\<lparr>world := w\<rparr>)"
  by (simp add: awaitRace_def fromResult_def throw_def)

lemma awaitRace_settles: "fst (awaitRace p limit e s) \<noteq> NeverSettles"
  by (cases "p (world s)" rule: prod.exhaust; cases "fst (p (world s))")
     (auto simp: awaitRace_def fromResult_def returns_def throw_def split: sum.splits)

text \<open>
  Claim C8. The timeout is 120000 ms when none is given. When the wait settles within it
  with a receipt whose status is not 1, waitForTransaction throws the BlockchainError
  "Transaction reverted" with code TX_REVERTED. When the wait settles within it with a
  rejection (this is how the wait of ethers 6 reports a mined transaction of status 0),
  waitForTransaction throws that very error. When the wait stays pending or settles only
  after the timeout, it throws the plain error "Transaction confirmation timeout", which
  has no code. A wait that settled within the timeout is never reported by the timeout
  error, unless the wait itself rejected with it. A receipt of status 1 that arrives
  within the timeout, also at its very end, is returned; a receipt that is returned has
  status 1; and waitForTransaction always settles.
\<close>

theorem waitForTransaction_reverted_or_timeout:
  "(tx_wait ch t (world s) = (Settles ms (Inr rcpt), w) \<and>
    ms \<le> (case timeoutMs of None \<Rightarrow> 120000 | Some limit \<Rightarrow> limit) \<and> status rcpt \<noteq> Some 1 \<longrightarrow>
      waitForTransaction ch t timeoutMs s =
        (Throws (BlockchainError ''Transaction reverted'' TX_REVERTED
                   [(''txHash'', DString (hash t)),
                    (''status'', case status rcpt of None \<Rightarrow> DNull | Some n \<Rightarrow> DNumber (int n))]),
         s\<lparr>world := w\<rparr>)) \<and>
   (tx_wait ch t (world s) = (Settles ms (Inl e), w) \<and>
    ms \<le> (case timeoutMs of None \<Rightarrow> 120000 | Some limit \<Rightarrow> limit) \<longrightarrow>
      waitForTransaction ch t timeoutMs s = (Throws e, s\<lparr>world := w\<rparr>)) \<and>
   (tx_wait ch t (world s) = (Pending, w) \<or>
    (tx_wait ch t (world s) = (Settles ms r, w) \<and>
     (case timeoutMs of None \<Rightarrow> 120000 | Some limit \<Rightarrow> limit) < ms) \<longrightarrow>
      waitForTransaction ch t timeoutMs s =
        (Throws (Error (Some ''Transaction confirmation timeout'')), s\<lparr>world := w\<rparr>)) \<and>
   (tx_wait ch t (world s) = (Settles ms r, w) \<and>
    ms \<le> (case timeoutMs of None \<Rightarrow> 120000 | Some limit \<Rightarrow> limit) \<and>
    r \<noteq> Inl (Error (Some ''Transaction confirmation timeout'')) \<longrightarrow>
      fst (waitForTransaction ch t timeoutMs s)
        \<noteq> Throws (Error (Some ''Transaction confirmation timeout''))) \<and>
   (tx_wait ch t (world s) = (Settles ms (Inr rcpt), w) \<and>
    ms \<le> (case timeoutMs of None \<Rightarrow> 120000 | Some limit \<Rightarrow> limit) \<and> status rcpt = Some 1 \<longrightarrow>
      waitForTransaction ch t timeoutMs s = (Returns rcpt, s\<lparr>world := w\<rparr>)) \<and>
   (\<forall>rcpt' s'. waitForTransaction ch t timeoutMs s = (Returns rcpt', s') \<longrightarrow> status rcpt' = Some 1) \<and>
   fst (waitForTransaction ch t timeoutMs s) \<noteq> NeverSettles \<and>
   code (BlockchainError ''Transaction reverted'' TX_REVERTED details') = Some TX_REVERTED \<and>
   code (Error (Some ''Transaction confirmation timeout'')) = None"
proof -
  define limit where "limit = (case timeoutMs of None \<Rightarrow> 120000 | Some limit \<Rightarrow> limit)"
  define late where "late = Error (Some ''Transaction confirmation timeout'')"
  define reverted where "reverted = (\<lambda>rcpt :: receipt. BlockchainError ''Transaction reverted'' TX_REVERTED
                   [(''txHash'', DString (hash t)),
                    (''status'', case status rcpt of None \<Rightarrow> DNull | Some n \<Rightarrow> DNumber (int n))])"
  have unfold: "waitForTransaction ch t timeoutMs =
      andThen (awaitRace (tx_wait ch t) limit late)
        (\<lambda>rcpt. if status rcpt \<noteq> Some 1 then throw (reverted rcpt) else returns rcpt)"
    unfolding waitForTransaction_def limit_def late_def reverted_def by (rule refl)
  have failed: "waitForTransaction ch t timeoutMs s = (Throws (reverted rcpt), s\<lparr>world := w\<rparr>)"
    if "tx_wait ch t (world s) = (Settles ms (Inr rcpt), w)" "ms \<le> limit" "status rcpt \<noteq> Some 1"
    for ms rcpt w
  proof -
    from that(1,2) have "awaitRace (tx_wait ch t) limit late s = (Returns rcpt, s\<lparr>world := w\<rparr>)"
      by (rule awaitRace_settled)
    with that(3) show ?thesis by (simp add: unfold andThen_def throw_def)
  qed
  have rejected: "waitForTransaction ch t timeoutMs s = (Throws e, s\<lparr>world := w\<rparr>)"
    if "tx_wait ch t (world s) = (Settles ms (Inl e), w)" "ms \<le> limit" for ms e w
  proof -
    from that have "awaitRace (tx_wait ch t) limit late s = (Throws e, s\<lparr>world := w\<rparr>)"
      by (rule awaitRace_rejected)
    then show ?thesis by (simp add: unfold andThen_def)
  qed
  have timer: "waitForTransaction ch t timeoutMs s = (Throws late, s\<lparr>world := w\<rparr>)"
    if "tx_wait ch t (world s) = (Pending, w) \<or>
        (tx_wait ch t (world s) = (Settles ms r, w) \<and> limit < ms)" for ms r w
  proof -
    from that have "awaitRace (tx_wait ch t) limit late s = (Throws late, s\<lparr>world := w\<rparr>)"
    proof
      assume "tx_wait ch t (world s) = (Pending, w)"
      then show ?thesis by (rule awaitRace_timeout_pending)
    next
      assume "tx_wait ch t (world s) = (Settles ms r, w) \<and> limit < ms"
      then have "tx_wait ch t (world s) = (Settles ms r, w)" and "limit < ms" by blast+
      then show ?thesis by (rule awaitRace_timeout_late)
    qed
    then show ?thesis by (simp add: unfold andThen_def)
  qed
  have confirmed: "waitForTransaction ch t timeoutMs s = (Returns rcpt, s\<lparr>world := w\<rparr>)"
    if "tx_wait ch t (world s) = (Settles ms (Inr rcpt), w)" "ms \<le> limit" "status rcpt = Some 1"
    for ms rcpt w
  proof -
    from that(1,2) have "awaitRace (tx_wait ch t) limit late s = (Returns rcpt, s\<lparr>world := w\<rparr>)"
      by (rule awaitRace_settled)
    with that(3) show ?thesis by (simp add: unfold andThen_def returns_def)
  qed
  have apart: "fst (waitForTransaction ch t timeoutMs s) \<noteq> Throws late"
    if a: "tx_wait ch t (world s) = (Settles ms r, w)" and b: "ms \<le> limit" and c: "r \<noteq> Inl late"
    for ms r w
  proof (cases r)
    case (Inl e)
    with a b have "waitForTransaction ch t timeoutMs s = (Throws e, s\<lparr>world := w\<rparr>)"
      by (intro rejected) simp_all
    with c Inl show ?thesis by simp
  next
    case (Inr rcpt)
    show ?thesis
    proof (cases "status rcpt = Some 1")
      case True
      with a b Inr have "waitForTransaction ch t timeoutMs s = (Returns rcpt, s\<lparr>world := w\<rparr>)"
        by (intro confirmed) simp_all
      then show ?thesis by simp
    next
      case False
      with a b Inr have "waitForTransaction ch t timeoutMs s = (Throws (reverted rcpt), s\<lparr>world := w\<rparr>)"
        by (intro failed) simp_all
      then show ?thesis by (simp add: reverted_def late_def)
    qed
  qed
  have returned: "status rcpt' = Some 1"
    if r: "waitForTransaction ch t timeoutMs s = (Returns rcpt', s')" for rcpt' s'
  proof (cases "awaitRace (tx_wait ch t) limit late s")
    case (Pair c s1)
    with r show ?thesis
      by (cases c) (auto simp: unfold andThen_def throw_def returns_def split: if_splits)
  qed
  have settles: "fst (waitForTransaction ch t timeoutMs s) \<noteq> NeverSettles"
  proof (cases "awaitRace (tx_wait ch t) limit late s")
    case (Pair c s1)
    with awaitRace_settles [of "tx_wait ch t" limit late s]
    show ?thesis
      by (cases c) (auto simp: unfold andThen_def throw_def returns_def)
  qed
  have codes: "code (BlockchainError ''Transaction reverted'' TX_REVERTED details') = Some TX_REVERTED"
    "code (Error (Some ''Transaction confirmation timeout'')) = None"
    by simp_all
  show ?thesis
  proof (intro conjI impI allI)
    assume "tx_wait ch t (world s) = (Settles ms (Inr rcpt), w) \<and>
      ms \<le> (case timeoutMs of None \<Rightarrow> 120000 | Some limit \<Rightarrow> limit) \<and> status rcpt \<noteq> Some 1"
    then have "tx_wait ch t (world s) = (Settles ms (Inr rcpt), w)" "ms \<le> limit"
      "status rcpt \<noteq> Some 1" by (simp_all add: limit_def)
    then have "waitForTransaction ch t timeoutMs s = (Throws (reverted rcpt), s\<lparr>world := w\<rparr>)"
      by (rule failed)
    then show "waitForTransaction ch t timeoutMs s =
        (Throws (BlockchainError ''Transaction reverted'' TX_REVERTED
                   [(''txHash'', DString (hash t)),
                    (''status'', case status rcpt of None \<Rightarrow> DNull | Some n \<Rightarrow> DNumber (int n))]),
         s\<lparr>world := w\<rparr>)"
      by (simp only: reverted_def)
  next
    assume "tx_wait ch t (world s) = (Settles ms (Inl e), w) \<and>
      ms \<le> (case timeoutMs of None \<Rightarrow> 120000 | Some limit \<Rightarrow> limit)"
    then have "tx_wait ch t (world s) = (Settles ms (Inl e), w)" "ms \<le> limit"
      by (simp_all add: limit_def)
    then show "waitForTransaction ch t timeoutMs s = (Throws e, s\<lparr>world := w\<rparr>)"
      by (rule rejected)
  next
    assume "tx_wait ch t (world s) = (Pending, w) \<or>
      (tx_wait ch t (world s) = (Settles ms r, w) \<and>
       (case timeoutMs of None \<Rightarrow> 120000 | Some limit \<Rightarrow> limit) < ms)"
    then have "tx_wait ch t (world s) = (Pending, w) \<or>
        (tx_wait ch t (world s) = (Settles ms r, w) \<and> limit < ms)"
      by (simp only: limit_def)
    then have "waitForTransaction ch t timeoutMs s = (Throws late, s\<lparr>world := w\<rparr>)"
      by (rule timer)
    then show "waitForTransaction ch t timeoutMs s =
        (Throws (Error (Some ''Transaction confirmation timeout'')), s\<lparr>world := w\<rparr>)"
      by (simp only: late_def)
  next
    assume "tx_wait ch t (world s) = (Settles ms r, w) \<and>
      ms \<le> (case timeoutMs of None \<Rightarrow> 120000 | Some limit \<Rightarrow> limit) \<and>
      r \<noteq> Inl (Error (Some ''Transaction confirmation timeout''))"
    then have "tx_wait ch t (world s) = (Settles ms r, w)" "ms \<le> limit" "r \<noteq> Inl late"
      by (simp_all add: limit_def late_def)
    then have "fst (waitForTransaction ch t timeoutMs s) \<noteq> Throws late"
      by (rule apart)
    then show "fst (waitForTransaction ch t timeoutMs s)
        \<noteq> Throws (Error (Some ''Transaction confirmation timeout''))"
      unfolding late_def .
  next
    assume "tx_wait ch t (world s) = (Settles ms (Inr rcpt), w) \<and>
      ms \<le> (case timeoutMs of None \<Rightarrow> 120000 | Some limit \<Rightarrow> limit) \<and> status rcpt = Some 1"
    then have "tx_wait ch t (world s) = (Settles ms (Inr rcpt), w)" "ms \<le> limit"
      "status rcpt = Some 1" by (simp_all add: limit_def)
    then show "waitForTransaction ch t timeoutMs s = (Returns rcpt, s\<lparr>world := w\<rparr>)"
      by (rule confirmed)
  next
    fix rcpt' s'
    assume "waitForTransaction ch t timeoutMs s = (Returns rcpt', s')"
    then show "status rcpt' = Some 1" by (rule returned)
  next
    show "fst (waitForTransaction ch t timeoutMs s) \<noteq> NeverSettles" by (rule settles)
  next
    show "code (BlockchainError ''Transaction reverted'' TX_REVERTED details') = Some TX_REVERTED"
      by (rule codes(1))
  next
    show "code (Error (Some ''Transaction confirmation timeout'')) = None"
      by (rule codes(2))
  qed
qed

text \<open>
  With the default timeout: a transaction mined after 5 s with status 0 handed back as a
  receipt; the same reported by a rejection of the wait; a transaction that is never
  mined; one mined with status 1 a millisecond after the 120 s; and one mined with
  status 1 at the very end of the 120 s.
\<close>

theorem waitForTransaction_reverted_or_timeout_witness:
  "waitForTransaction
     (exampleChain 0 0 (Settles 5000 (Inr \<lparr>status = Some 0, blockNumber = 100, gasUsed = 150000\<rparr>)))
     \<lparr>hash = ''0xswap''\<rparr> None \<lparr>world = 0, events = []\<rparr> =
     (Throws (BlockchainError ''Transaction reverted'' TX_REVERTED
                [(''txHash'', DString ''0xswap''), (''status'', DNumber 0)]),
      \<lparr>world = 1, events = []\<rparr>) \<and>
   waitForTransaction
     (exampleChain 0 0 (Settles 5000 (Inl (Error (Some ''transaction execution reverted'')))))
     \<lparr>hash = ''0xswap''\<rparr> None \<lparr>world = 0, events = []\<rparr> =
     (Throws (Error (Some ''transaction execution reverted'')), \<lparr>world = 1, events = []\<rparr>) \<and>
   fst (waitForTransaction
     (exampleChain 0 0 (Settles 5000 (Inl (Error (Some ''transaction execution reverted'')))))
     \<lparr>hash = ''0xswap''\<rparr> None \<lparr>world = 0, events = []\<rparr>)
     \<noteq> Throws (Error (Some ''Transaction confirmation timeout'')) \<and>
   waitForTransaction (exampleChain 0 0 Pending) \<lparr>hash = ''0xswap''\<rparr> None \<lparr>world = 0, events = []\<rparr> =
     (Throws (Error (Some ''Transaction confirmation timeout'')), \<lparr>world = 1, events = []\<rparr>) \<and>
   waitForTransaction
     (exampleChain 0 0 (Settles 120001 (Inr \<lparr>status = Some 1, blockNumber = 100, gasUsed = 150000\<rparr>)))
     \<lparr>hash = ''0xswap''\<rparr> None \<lparr>world = 0, events = []\<rparr> =
     (Throws (Error (Some ''Transaction confirmation timeout'')), \<lparr>world = 1, events = []\<rparr>) \<and>
   waitForTransaction
     (exampleChain 0 0 (Settles 120000 (Inr \<lparr>status = Some 1, blockNumber = 100, gasUsed = 150000\<rparr>)))
     \<lparr>hash = ''0xswap''\<rparr> None \<lparr>world = 0, events = []\<rparr> =
     (Returns \<lparr>status = Some 1, blockNumber = 100, gasUsed = 150000\<rparr>, \<lparr>world = 1, events = []\<rparr>)"
proof -
  let ?failed = "\<lparr>status = Some 0, blockNumber = 100, gasUsed = 150000\<rparr>"
  let ?ok = "\<lparr>status = Some 1, blockNumber = 100, gasUsed = 150000\<rparr>"
  let ?revert = "Error (Some ''transaction execution reverted'')"
  let ?t = "\<lparr>hash = ''0xswap''\<rparr>"
  let ?s = "\<lparr>world = 0 :: nat, events = []\<rparr>"
  have a: "tx_wait (exampleChain 0 0 (Settles 5000 (Inr ?failed))) ?t (world ?s)
        = (Settles 5000 (Inr ?failed), 1) \<and>
      (5000 :: nat) \<le> (case None of None \<Rightarrow> 120000 | Some limit \<Rightarrow> limit) \<and> status ?failed \<noteq> Some 1"
    by (simp add: exampleChain_def)
  from waitForTransaction_reverted_or_timeout
    [where ch = "exampleChain 0 0 (Settles 5000 (Inr ?failed))" and t = ?t and s = ?s and ms = 5000
       and rcpt = ?failed and w = 1 and timeoutMs = None] a
  have 1: "waitForTransaction (exampleChain 0 0 (Settles 5000 (Inr ?failed))) ?t None ?s =
     (Throws (BlockchainError ''Transaction reverted'' TX_REVERTED
                [(''txHash'', DString (hash ?t)),
                 (''status'', case status ?failed of None \<Rightarrow> DNull | Some n \<Rightarrow> DNumber (int n))]),
      ?s\<lparr>world := 1\<rparr>)"
    by blast
  have r: "tx_wait (exampleChain 0 0 (Settles 5000 (Inl ?revert))) ?t (world ?s)
        = (Settles 5000 (Inl ?revert), 1) \<and>
      (5000 :: nat) \<le> (case None of None \<Rightarrow> 120000 | Some limit \<Rightarrow> limit)"
    by (simp add: exampleChain_def)
  from waitForTransaction_reverted_or_timeout
    [where ch = "exampleChain 0 0 (Settles 5000 (Inl ?revert))" and t = ?t and s = ?s and ms = 5000
       and e = ?revert and w = 1 and timeoutMs = None] r
  have 2: "waitForTransaction (exampleChain 0 0 (Settles 5000 (Inl ?revert))) ?t None ?s =
     (Throws ?revert, ?s\<lparr>world := 1\<rparr>)"
    by blast
  have r': "tx_wait (exampleChain 0 0 (Settles 5000 (Inl ?revert))) ?t (world ?s)
        = (Settles 5000 (Inl ?revert), 1) \<and>
      (5000 :: nat) \<le> (case None of None \<Rightarrow> 120000 | Some limit \<Rightarrow> limit) \<and>
      (Inl ?revert :: error + receipt) \<noteq> Inl (Error (Some ''Transaction confirmation timeout''))"
    by (simp add: exampleChain_def)
  from waitForTransaction_reverted_or_timeout
    [where ch = "exampleChain 0 0 (Settles 5000 (Inl ?revert))" and t = ?t and s = ?s and ms = 5000
       and r = "Inl ?revert" and w = 1 and timeoutMs = None] r'
  have 3: "fst (waitForTransaction (exampleChain 0 0 (Settles 5000 (Inl ?revert))) ?t None ?s)
      \<noteq> Throws (Error (Some ''Transaction confirmation timeout''))"
    by blast
  have b: "tx_wait (exampleChain 0 0 Pending) ?t (world ?s) = (Pending, 1)"
    by (simp add: exampleChain_def)
  from waitForTransaction_reverted_or_timeout
    [where ch = "exampleChain 0 0 Pending" and t = ?t and s = ?s and w = 1 and timeoutMs = None] b
  have 4: "waitForTransaction (exampleChain 0 0 Pending) ?t None ?s =
     (Throws (Error (Some ''Transaction confirmation timeout'')), ?s\<lparr>world := 1\<rparr>)"
    by blast
  have c: "tx_wait (exampleChain 0 0 (Settles 120001 (Inr ?ok))) ?t (world ?s)
        = (Settles 120001 (Inr ?ok), 1) \<and>
      (case None of None \<Rightarrow> 120000 | Some limit \<Rightarrow> limit) < (120001 :: nat)"
    by (simp add: exampleChain_def)
  from waitForTransaction_reverted_or_timeout
    [where ch = "exampleChain 0 0 (Settles 120001 (Inr ?ok))" and t = ?t and s = ?s and ms = 120001
       and w = 1 and timeoutMs = None and r = "Inr ?ok"] c
  have 5: "waitForTransaction (exampleChain 0 0 (Settles 120001 (Inr ?ok))) ?t None ?s =
     (Throws (Error (Some ''Transaction confirmation timeout'')), ?s\<lparr>world := 1\<rparr>)"
    by blast
  have d: "tx_wait (exampleChain 0 0 (Settles 120000 (Inr ?ok))) ?t (world ?s)
        = (Settles 120000 (Inr ?ok), 1) \<and>
      (120000 :: nat) \<le> (case None of None \<Rightarrow> 120000 | Some limit \<Rightarrow> limit) \<and> status ?ok = Some 1"
    by (simp add: exampleChain_def)
  from waitForTransaction_reverted_or_timeout
    [where ch = "exampleChain 0 0 (Settles 120000 (Inr ?ok))" and t = ?t and s = ?s and ms = 120000
       and rcpt = ?ok and w = 1 and timeoutMs = None] d
  have 6: "waitForTransaction (exampleChain 0 0 (Settles 120000 (Inr ?ok))) ?t None ?s =
     (Returns ?ok, ?s\<lparr>world := 1\<rparr>)"
    by blast
  from 1 2 3 4 5 6 show ?thesis by simp
qed

lemma approveOnce_sent:
  assumes "erc20_approve_estimateGas ch tokenAddress spender amount w = (Inr g, w')"
    and "erc20_approve ch tokenAddress spender amount ((g * 130) sdiv 100) w' = (Inr t, w'')"
  shows "approveOnce ch tokenAddress spender amount \<lparr>world = w, events = evs\<rparr> =
           (Returns t, \<lparr>world = w'',
              events = evs @ [SendApprove tokenAddress spender amount ((g * 130) sdiv 100)]\<rparr>)"
  using assms by (simp add: approveOnce_def andThen_def call_def emit_def logged_def)

text \<open>
  Claim C9 does not hold of approveToken. What the code does where the allowance is too
  small, the approval is sent at the first attempt and its confirmation never arrives:
  approveToken awaits \<^verbatim>\<open>tx.wait()\<close> with no timer and never settles, whereas
  waitForTransaction (above) races the same wait against a timer and always settles.
\<close>

theorem approveToken_unbounded_wait:
  "wallet_getAddress ch w0 = (Inr owner, w1) \<and>
   erc20_allowance ch tokenAddress owner spender w1 = (Inr allowance, w2) \<and>
   allowance < amount \<and>
   erc20_approve_estimateGas ch tokenAddress spender amount w2 = (Inr g, w3) \<and>
   erc20_approve ch tokenAddress spender amount ((g * 130) sdiv 100) w3 = (Inr t, w4) \<and>
   tx_wait ch t w4 = (Pending, w5) \<longrightarrow>
     approveToken ch tokenAddress spender amount \<lparr>world = w0, events = evs\<rparr> =
       (NeverSettles,
        \<lparr>world = w5, events = evs @
           [LogAttempt ''Token approval'' 1 3,
            SendApprove tokenAddress spender amount ((g * 130) sdiv 100)]\<rparr>)"
proof
  assume h: "wallet_getAddress ch w0 = (Inr owner, w1) \<and>
   erc20_allowance ch tokenAddress owner spender w1 = (Inr allowance, w2) \<and>
   allowance < amount \<and>
   erc20_approve_estimateGas ch tokenAddress spender amount w2 = (Inr g, w3) \<and>
   erc20_approve ch tokenAddress spender amount ((g * 130) sdiv 100) w3 = (Inr t, w4) \<and>
   tx_wait ch t w4 = (Pending, w5)"
  from h have addr: "wallet_getAddress ch w0 = (Inr owner, w1)"
    and allow: "erc20_allowance ch tokenAddress owner spender w1 = (Inr allowance, w2)"
    and less: "allowance < amount"
    and est: "erc20_approve_estimateGas ch tokenAddress spender amount w2 = (Inr g, w3)"
    and app: "erc20_approve ch tokenAddress spender amount ((g * 130) sdiv 100) w3 = (Inr t, w4)"
    and wait: "tx_wait ch t w4 = (Pending, w5)" by blast+
  let ?evs = "evs @ [LogAttempt ''Token approval'' 1 3,
            SendApprove tokenAddress spender amount ((g * 130) sdiv 100)]"
  have once: "approveOnce ch tokenAddress spender amount
      (logged (LogAttempt ''Token approval'' 1 MAX_RETRY_ATTEMPTS) \<lparr>world = w2, events = evs\<rparr>) =
      (Returns t, \<lparr>world = w4, events = ?evs\<rparr>)"
    using approveOnce_sent [OF est app, of "evs @ [LogAttempt ''Token approval'' 1 3]"]
    by (simp add: logged_machine MAX_RETRY_ATTEMPTS_def)
  have retry: "executeWithRetry (approveOnce ch tokenAddress spender amount) ''Token approval''
      \<lparr>world = w2, events = evs\<rparr> = (Returns t, \<lparr>world = w4, events = ?evs\<rparr>)"
    unfolding executeWithRetry_def
    by (rule retryLoop_returns [where fn = "approveOnce ch tokenAddress spender amount", OF _ once])
       (simp add: MAX_RETRY_ATTEMPTS_def)
  have aw: "await (tx_wait ch t) \<lparr>world = w4, events = ?evs\<rparr> =
      (NeverSettles, \<lparr>world = w5, events = ?evs\<rparr>)"
    using wait by (simp add: await_def)
  show "approveToken ch tokenAddress spender amount \<lparr>world = w0, events = evs\<rparr> =
       (NeverSettles, \<lparr>world = w5, events = ?evs\<rparr>)"
    using addr allow less retry aw
    by (simp add: approveToken_def andThen_def call_def)
qed

text \<open>An approval of 500 with no allowance, on a chain that never confirms.\<close>

theorem approveToken_unbounded_wait_witness:
  "approveToken (exampleChain 500 0 Pending) ''0xToken'' UNISWAP_V3_ROUTER 500
     \<lparr>world = 0, events = []\<rparr> =
     (NeverSettles,
      \<lparr>world = 5, events =
         [LogAttempt ''Token approval'' 1 3,
          SendApprove ''0xToken'' UNISWAP_V3_ROUTER 500 65000]\<rparr>)"
proof -
  let ?ch = "exampleChain 500 0 Pending"
  have h: "wallet_getAddress ?ch 0 = (Inr ''0xWallet'', 1) \<and>
   erc20_allowance ?ch ''0xToken'' ''0xWallet'' UNISWAP_V3_ROUTER 1 = (Inr 0, 2) \<and>
   (0::int) < 500 \<and>
   erc20_approve_estimateGas ?ch ''0xToken'' UNISWAP_V3_ROUTER 500 2 = (Inr 50000, 3) \<and>
   erc20_approve ?ch ''0xToken'' UNISWAP_V3_ROUTER 500 ((50000 * 130) sdiv 100) 3
     = (Inr \<lparr>hash = ''0xapprove''\<rparr>, 4) \<and>
   tx_wait ?ch \<lparr>hash = ''0xapprove''\<rparr> 4 = (Pending, 5)"
    by (simp add: exampleChain_def)
  have g: "((50000 * 130) sdiv 100 :: int) = 65000"
    by (simp add: signed_divide_int_def)
  from approveToken_unbounded_wait
    [where ch = ?ch and ?w0.0 = 0 and owner = "''0xWallet''" and ?w1.0 = 1 and tokenAddress = "''0xToken''"
       and spender = UNISWAP_V3_ROUTER and allowance = 0 and ?w2.0 = 2 and amount = 500 and g = 50000
       and ?w3.0 = 3 and t = "\<lparr>hash = ''0xapprove''\<rparr>" and ?w4.0 = 4 and ?w5.0 = 5 and evs = "[]"] h
  have "approveToken ?ch ''0xToken'' UNISWAP_V3_ROUTER 500 \<lparr>world = 0, events = []\<rparr> =
       (NeverSettles,
        \<lparr>world = 5, events = [] @
           [LogAttempt ''Token approval'' 1 3,
            SendApprove ''0xToken'' UNISWAP_V3_ROUTER 500 ((50000 * 130) sdiv 100)]\<rparr>)"
    by blast
  then show ?thesis unfolding g by simp
qed

section \<open>SELL\<close>













































end
